theory Spec2Isabelle
  imports Complex_Main
begin

section \<open>The renderer's marshalling layer (easy3d/viewer/renderer.cpp)\<close>

text \<open>
  The six overloads of \<open>update_data\<close> read a model (point cloud, surface mesh, graph) and
  fill a drawable. The models, the drawables, the tessellator, the random colour source and the
  configuration constants are collaborators of the marshalling code: they appear here as records
  and as parameters, and the marshalling code itself is translated statement by statement.

  Conventions.
  \<^item> A handle (vertex, face, halfedge, edge) is its index, a natural number.
  \<^item> A property that the code uploads as a whole (\<open>.vector()\<close>) is a list; a property that the
    code only reads or writes at the handles the model hands out is a function of the handle.
    A property that may be absent is an \<open>option\<close>.
  \<^item> \<open>v:point\<close> can be missing like every other property. The code uses it without a
    test; what a read of a missing property does is decided by the property class, and is
    taken from the spec.
  \<^item> Coordinates and colours are \<open>real\<close>; nothing proved here depends on rounding.
  \<^item> The triangle counter is an unbounded integer: it overflows only with more than
    \<open>2^31\<close> triangles. The primitive counter of the point cloud is computed from stored
    data, and its increment is checked against the range of \<open>int\<close>.
  \<^item> A pointer argument is an \<open>option\<close>, \<open>None\<close> the null pointer.
  \<^item> Assertions are compiled in: \<open>NDEBUG\<close> is not defined.
  \<^item> Memory is not bounded: no allocation fails.
  \<^item> Every way in which a call does not complete is a value of type \<open>error\<close>.
\<close>

type_synonym vec3 = "real \<times> real \<times> real"
type_synonym vec2 = "real \<times> real"

type_synonym vertex = nat
type_synonym face = nat
type_synonym halfedge = nat
type_synonym edge = nat

datatype error =
    AssertionFailed   \<comment> \<open>an \<open>assert\<close> of the source fails\<close>
  | NullDereference   \<comment> \<open>a null pointer is dereferenced with no assertion before it\<close>
  | InvalidAccess     \<comment> \<open>an array is read outside its bounds\<close>
  | IntegerOverflow   \<comment> \<open>an \<open>int\<close> is incremented beyond its range\<close>
  | NoReturn          \<comment> \<open>a loop of the source never ends\<close>

subsection \<open>Drawables\<close>

text \<open>
  Modelled from the spec: the drawable classes are declared outside the marshalling code. The
  spec describes them as write-only sinks with one operation per buffer and per state variable;
  each operation stores its argument and touches nothing else. An element buffer that is
  released, or was never uploaded, is \<open>None\<close>. The impostor types are the two
  enumerations of the points and the lines drawable; both have a plain member, called
  \<open>PLAIN\<close> and \<open>LINE\<close> here.
\<close>

datatype points_impostor = PLAIN | SPHERE | SURFEL
datatype lines_impostor = LINE | CYLINDER | CONE

record drawable =
  vertex_buffer :: "vec3 list option"
  normal_buffer :: "vec3 list option"
  color_buffer :: "vec3 list option"
  texcoord_buffer :: "vec2 list option"
  index_buffer :: "nat list option"
  default_color :: vec3
  per_vertex_color :: bool

record points_drawable = drawable +
  point_size :: real
  points_impostor_type :: points_impostor

record lines_drawable = drawable +
  line_width :: real
  lines_impostor_type :: lines_impostor

type_synonym triangles_drawable = drawable

definition update_vertex_buffer :: "vec3 list \<Rightarrow> 'a drawable_scheme \<Rightarrow> 'a drawable_scheme" where
  "update_vertex_buffer ps d = d\<lparr>vertex_buffer := Some ps\<rparr>"

definition update_normal_buffer :: "vec3 list \<Rightarrow> 'a drawable_scheme \<Rightarrow> 'a drawable_scheme" where
  "update_normal_buffer ns d = d\<lparr>normal_buffer := Some ns\<rparr>"

definition update_color_buffer :: "vec3 list \<Rightarrow> 'a drawable_scheme \<Rightarrow> 'a drawable_scheme" where
  "update_color_buffer cs d = d\<lparr>color_buffer := Some cs\<rparr>"

definition update_texcoord_buffer :: "vec2 list \<Rightarrow> 'a drawable_scheme \<Rightarrow> 'a drawable_scheme" where
  "update_texcoord_buffer ts d = d\<lparr>texcoord_buffer := Some ts\<rparr>"

definition update_index_buffer :: "nat list \<Rightarrow> 'a drawable_scheme \<Rightarrow> 'a drawable_scheme" where
  "update_index_buffer is d = d\<lparr>index_buffer := Some is\<rparr>"

definition release_element_buffer :: "'a drawable_scheme \<Rightarrow> 'a drawable_scheme" where
  "release_element_buffer d = d\<lparr>index_buffer := None\<rparr>"

definition set_default_color :: "vec3 \<Rightarrow> 'a drawable_scheme \<Rightarrow> 'a drawable_scheme" where
  "set_default_color c d = d\<lparr>default_color := c\<rparr>"

definition set_per_vertex_color :: "bool \<Rightarrow> 'a drawable_scheme \<Rightarrow> 'a drawable_scheme" where
  "set_per_vertex_color b d = d\<lparr>per_vertex_color := b\<rparr>"

definition set_point_size :: "real \<Rightarrow> points_drawable \<Rightarrow> points_drawable" where
  "set_point_size s d = d\<lparr>point_size := s\<rparr>"

definition set_points_impostor_type :: "points_impostor \<Rightarrow> points_drawable \<Rightarrow> points_drawable" where
  "set_points_impostor_type t d = d\<lparr>points_impostor_type := t\<rparr>"

definition set_line_width :: "real \<Rightarrow> lines_drawable \<Rightarrow> lines_drawable" where
  "set_line_width w d = d\<lparr>line_width := w\<rparr>"

definition set_lines_impostor_type :: "lines_impostor \<Rightarrow> lines_drawable \<Rightarrow> lines_drawable" where
  "set_lines_impostor_type t d = d\<lparr>lines_impostor_type := t\<rparr>"

subsection \<open>Configuration\<close>

text \<open>The constants of namespace \<open>setting\<close> that the marshallers read; their values are
  a parameter.\<close>

record setting =
  point_cloud_points_color :: vec3
  surface_mesh_vertices_color :: vec3
  surface_mesh_vertices_point_size :: real
  surface_mesh_edges_color :: vec3
  surface_mesh_edges_line_width :: real

subsection \<open>Models\<close>

record point_cloud =
  vertices :: "vertex list"                         \<comment> \<open>\<open>model->vertices()\<close>, in iteration order\<close>
  cloud_point_property :: "vec3 list option"        \<comment> \<open>\<open>v:point\<close>\<close>
  cloud_normal :: "vec3 list option"                \<comment> \<open>\<open>v:normal\<close>\<close>
  cloud_color :: "vec3 list option"                 \<comment> \<open>\<open>v:color\<close>\<close>
  v_primitive_type :: "(vertex \<Rightarrow> int) option"      \<comment> \<open>\<open>v:primitive_type\<close>\<close>
  v_primitive_index :: "(vertex \<Rightarrow> int) option"     \<comment> \<open>\<open>v:primitive_index\<close>\<close>

record surface_mesh =
  faces :: "face list"                              \<comment> \<open>\<open>model->faces()\<close>, in iteration order\<close>
  edges :: "edge list"                              \<comment> \<open>\<open>model->edges()\<close>, in iteration order\<close>
  halfedge :: "face \<Rightarrow> halfedge"                     \<comment> \<open>\<open>model->halfedge(face)\<close>\<close>
  halfedges :: "face \<Rightarrow> halfedge list"               \<comment> \<open>\<open>model->halfedges(face)\<close>, the circulator\<close>
  next_halfedge :: "halfedge \<Rightarrow> halfedge"
  to_vertex :: "halfedge \<Rightarrow> vertex"
  from_vertex :: "halfedge \<Rightarrow> vertex"
  edge_vertex :: "edge \<Rightarrow> nat \<Rightarrow> vertex"             \<comment> \<open>\<open>model->vertex(e, i)\<close>\<close>
  v_point_property :: "vec3 list option"            \<comment> \<open>\<open>v:point\<close>\<close>
  v_normal :: "vec3 list option"                    \<comment> \<open>\<open>v:normal\<close>\<close>
  v_color :: "vec3 list option"                     \<comment> \<open>\<open>v:color\<close>\<close>
  v_texcoord :: "vec2 list option"                  \<comment> \<open>\<open>v:texcoord\<close>\<close>
  f_color :: "(face \<Rightarrow> vec3) option"                \<comment> \<open>\<open>f:color\<close>\<close>
  f_triangle_range :: "(face \<Rightarrow> int \<times> int) option"  \<comment> \<open>\<open>f:triangle_range\<close>\<close>

record graph =
  graph_point_property :: "vec3 list option"        \<comment> \<open>\<open>v:point\<close>\<close>
  graph_edges :: "edge list"                        \<comment> \<open>\<open>model->edges()\<close>\<close>
  graph_from_vertex :: "edge \<Rightarrow> vertex"
  graph_to_vertex :: "edge \<Rightarrow> vertex"

text \<open>The array behind a property handle; a handle to a property that does not exist has
  no array.\<close>

definition property_array :: "'a list option \<Rightarrow> 'a list" where
  "property_array p = (case p of None \<Rightarrow> [] | Some xs \<Rightarrow> xs)"

text \<open>The positions of a model: the array of its \<open>v:point\<close>.\<close>

definition cloud_point :: "point_cloud \<Rightarrow> vec3 list" where
  "cloud_point m = property_array (cloud_point_property m)"

definition v_point :: "surface_mesh \<Rightarrow> vec3 list" where
  "v_point m = property_array (v_point_property m)"

definition graph_point :: "graph \<Rightarrow> vec3 list" where
  "graph_point m = property_array (graph_point_property m)"

text \<open>
  Modelled from the spec: the property class is not part of the marshalling code. The spec
  calls a missing \<open>v:point\<close> a programming error that fails an assertion: reading the
  array (\<open>.vector()\<close>) or an entry (\<open>[v]\<close>) of the \<open>v:point\<close> handle of a model that
  has no such property is the error \<open>AssertionFailed\<close>. Looking the property up, without
  reading it, is not an error.
\<close>

text \<open>
  Modelled from the spec: \<open>SurfaceMesh::update_vertex_normals\<close> is not part of the
  marshalling code. The spec calls it the mesh's per-vertex normal recompute: it stores, for
  every vertex, the normal computed from the faces around it in \<open>v:normal\<close>, creating the
  property when it does not exist. The computed normal of a vertex depends on connectivity
  and positions only, which no marshaller changes; it is the parameter
  \<open>compute_vertex_normal\<close>. The mesh has as many vertices as it has positions.
\<close>

definition update_vertex_normals :: "(vertex \<Rightarrow> vec3) \<Rightarrow> surface_mesh \<Rightarrow> surface_mesh" where
  "update_vertex_normals compute_vertex_normal m =
     m\<lparr>v_normal := Some (map compute_vertex_normal [0 ..< length (v_point m)])\<rparr>"

text \<open>
  Modelled from the spec: \<open>model->face_property<std::pair<int,int>>("f:triangle_range")\<close>
  returns the property of that name and creates it, every entry \<open>(0, 0)\<close>, when the mesh
  has none.
\<close>

definition face_property_triangle_range :: "surface_mesh \<Rightarrow> face \<Rightarrow> int \<times> int" where
  "face_property_triangle_range m =
     (case f_triangle_range m of None \<Rightarrow> (\<lambda>f. (0, 0)) | Some tr \<Rightarrow> tr)"

subsection \<open>PointCloud to PointsDrawable\<close>

text \<open>\<open>random_color()\<close> draws from a process-wide generator: the generator's state is
  threaded through, and the drawing function is a parameter.\<close>

fun color_table_fill :: "('r \<Rightarrow> vec3 \<times> 'r) \<Rightarrow> nat \<Rightarrow> 'r \<Rightarrow> vec3 list \<times> 'r" where
  "color_table_fill random_color 0 s = ([], s)"
| "color_table_fill random_color (Suc n) s =
     (case random_color s of (c, s1) \<Rightarrow>
        (case color_table_fill random_color n s1 of (cs, s2) \<Rightarrow> (c # cs, s2)))"

text \<open>Lines 52 to 55: \<open>num\<close> starts at 0, takes the maximum with every vertex's index, and is
  incremented. \<open>num\<close> is an \<open>int\<close>: the increment of \<open>INT_MAX\<close>, which is
  \<open>2147483647\<close>, is undefined in the source and an error here.\<close>

definition count_primitives :: "(vertex \<Rightarrow> int) \<Rightarrow> vertex list \<Rightarrow> error + int" where
  "count_primitives primitive_index vs =
     (let num = fold (\<lambda>v num. max num (primitive_index v)) vs 0 in
      if num < 2147483647 then Inr (num + 1) else Inl IntegerOverflow)"

text \<open>Lines 61 to 68. \<open>color_table[idx]\<close> outside the table is undefined in the source.\<close>

fun segment_colors ::
  "(vertex \<Rightarrow> int) \<Rightarrow> (vertex \<Rightarrow> int) \<Rightarrow> vec3 list \<Rightarrow> vertex list \<Rightarrow> vec3 list \<Rightarrow> error + vec3 list"
where
  "segment_colors primitive_type primitive_index color_table [] colors = Inr colors"
| "segment_colors primitive_type primitive_index color_table (v # vs) colors =
     (let idx = primitive_index v in
      if primitive_type v = -1 then
        segment_colors primitive_type primitive_index color_table vs (colors @ [(0, 0, 0)])
      else if 0 \<le> idx \<and> nat idx < length color_table then
        segment_colors primitive_type primitive_index color_table vs
          (colors @ [color_table ! nat idx])
      else Inl InvalidAccess)"

definition update_data_cloud_points ::
  "setting \<Rightarrow> ('r \<Rightarrow> vec3 \<times> 'r) \<Rightarrow> 'r \<Rightarrow> point_cloud option \<Rightarrow> points_drawable option
     \<Rightarrow> error + points_drawable \<times> 'r"
where
  "update_data_cloud_points cfg random_color seed model drawable =
     (case model of None \<Rightarrow> Inl AssertionFailed | Some m \<Rightarrow>
     (case drawable of None \<Rightarrow> Inl AssertionFailed | Some d \<Rightarrow>
      (case (v_primitive_type m, v_primitive_index m) of
         (Some primitive_type, Some primitive_index) \<Rightarrow>
           (case count_primitives primitive_index (vertices m) of
              Inl e \<Rightarrow> Inl e
            | Inr num \<Rightarrow>
           (case color_table_fill random_color (nat num) seed of
              (color_table, seed') \<Rightarrow>
                (case segment_colors primitive_type primitive_index color_table (vertices m) [] of
                   Inl e \<Rightarrow> Inl e
                 | Inr colors \<Rightarrow>
                     (let d1 = update_color_buffer colors d;
                          d2 = set_per_vertex_color True d1
                      in case cloud_point_property m of
                           None \<Rightarrow> Inl AssertionFailed
                         | Some points \<Rightarrow>
                             (let d3 = update_vertex_buffer points d2;
                                  d4 = (case cloud_normal m of
                                          Some normals \<Rightarrow> update_normal_buffer normals d3
                                        | None \<Rightarrow> d3)
                              in Inr (d4, seed'))))))
       | _ \<Rightarrow>
           (case cloud_point_property m of
              None \<Rightarrow> Inl AssertionFailed
            | Some points \<Rightarrow>
                (let d1 = update_vertex_buffer points d;
                     d2 = (case cloud_normal m of
                             Some normals \<Rightarrow> update_normal_buffer normals d1
                           | None \<Rightarrow> d1);
                     d3 = (case cloud_color m of
                             Some colors \<Rightarrow>
                               set_per_vertex_color True (update_color_buffer colors d2)
                           | None \<Rightarrow>
                               set_per_vertex_color False
                                 (set_default_color (point_cloud_points_color cfg) d2))
                 in Inr (d3, seed))))))"

subsection \<open>SurfaceMesh to PointsDrawable, SurfaceMesh to LinesDrawable\<close>

text \<open>These two overloads, and the two for graphs, have no assertion: the first statement
  dereferences \<open>model\<close>, a later one \<open>drawable\<close>. In
  \<open>drawable->update_vertex_buffer(points.vector())\<close> the argument is read before the
  drawable is entered.\<close>

definition update_data_mesh_points ::
  "setting \<Rightarrow> surface_mesh option \<Rightarrow> points_drawable option \<Rightarrow> error + points_drawable"
where
  "update_data_mesh_points cfg model drawable =
     (case model of None \<Rightarrow> Inl NullDereference | Some m \<Rightarrow>
     (case v_point_property m of None \<Rightarrow> Inl AssertionFailed | Some points \<Rightarrow>
     (case drawable of None \<Rightarrow> Inl NullDereference | Some d \<Rightarrow>
        Inr (set_points_impostor_type SPHERE
              (set_point_size (surface_mesh_vertices_point_size cfg)
                (set_per_vertex_color False
                  (set_default_color (surface_mesh_vertices_color cfg)
                    (update_vertex_buffer points d))))))))"

fun edge_indices :: "surface_mesh \<Rightarrow> edge list \<Rightarrow> nat list \<Rightarrow> nat list" where
  "edge_indices m [] indices = indices"
| "edge_indices m (e # es) indices =
     edge_indices m es (indices @ [edge_vertex m e 0, edge_vertex m e 1])"

definition update_data_mesh_lines ::
  "setting \<Rightarrow> surface_mesh option \<Rightarrow> lines_drawable option \<Rightarrow> error + lines_drawable"
where
  "update_data_mesh_lines cfg model drawable =
     (case model of None \<Rightarrow> Inl NullDereference | Some m \<Rightarrow>
     (let indices = edge_indices m (edges m) [] in
      case v_point_property m of None \<Rightarrow> Inl AssertionFailed | Some points \<Rightarrow>
     (case drawable of None \<Rightarrow> Inl NullDereference | Some d \<Rightarrow>
        Inr (set_line_width (surface_mesh_edges_line_width cfg)
              (set_per_vertex_color False
                (set_default_color (surface_mesh_edges_color cfg)
                  (update_index_buffer indices
                    (update_vertex_buffer points d))))))))"

subsection \<open>Graph to PointsDrawable, Graph to LinesDrawable\<close>

definition update_data_graph_points ::
  "graph option \<Rightarrow> points_drawable option \<Rightarrow> error + points_drawable"
where
  "update_data_graph_points model drawable =
     (case model of None \<Rightarrow> Inl NullDereference | Some m \<Rightarrow>
     (case graph_point_property m of None \<Rightarrow> Inl AssertionFailed | Some points \<Rightarrow>
     (case drawable of None \<Rightarrow> Inl NullDereference | Some d \<Rightarrow>
        Inr (set_points_impostor_type SPHERE
              (set_point_size 15
                (set_default_color (1, 0, 0)
                  (set_per_vertex_color False
                    (update_vertex_buffer points d))))))))"

fun graph_edge_indices :: "graph \<Rightarrow> edge list \<Rightarrow> nat list \<Rightarrow> nat list" where
  "graph_edge_indices m [] indices = indices"
| "graph_edge_indices m (e # es) indices =
     graph_edge_indices m es (indices @ [graph_from_vertex m e, graph_to_vertex m e])"

definition update_data_graph_lines ::
  "graph option \<Rightarrow> lines_drawable option \<Rightarrow> error + lines_drawable"
where
  "update_data_graph_lines model drawable =
     (case model of None \<Rightarrow> Inl NullDereference | Some m \<Rightarrow>
     (case graph_point_property m of None \<Rightarrow> Inl AssertionFailed | Some points \<Rightarrow>
     (case drawable of None \<Rightarrow> Inl NullDereference | Some d \<Rightarrow>
        (let indices = graph_edge_indices m (graph_edges m) [] in
        Inr (set_lines_impostor_type CYLINDER
              (set_line_width 3
                (set_default_color (1, 67 / 100, 1 / 2)
                  (set_per_vertex_color False
                    (update_index_buffer indices
                      (update_vertex_buffer points d))))))))))"

subsection \<open>SurfaceMesh to TrianglesDrawable\<close>

text \<open>
  The tessellator is used as one session per face: \<open>reset\<close>, \<open>begin_polygon(normal)\<close>,
  \<open>set_winding_rule(NONZERO)\<close>, one contour of 6-float vertices (position, then normal), and
  \<open>end_polygon\<close>. What it answers, the vertex array of \<open>get_vertices\<close> and the triangles
  of \<open>get_triangle\<close>, is a function of the polygon normal and the contour; that function is
  the parameter \<open>tess\<close>. A vertex of the tessellator is the pair of its first three and its
  next three numbers.
\<close>

type_synonym payload = "vec3 \<times> vec3"
type_synonym tessellation = "payload list \<times> (nat \<times> nat \<times> nat) list"
type_synonym tessellator = "vec3 \<Rightarrow> payload list \<Rightarrow> tessellation"

text \<open>Lines 143 to 148: one tessellator vertex per halfedge of the face.\<close>

fun face_contour ::
  "surface_mesh \<Rightarrow> vec3 list \<Rightarrow> halfedge list \<Rightarrow> payload list \<Rightarrow> error + payload list"
where
  "face_contour m normals [] contour = Inr contour"
| "face_contour m normals (h # hs) contour =
     (let v = to_vertex m h in
      case v_point_property m of
        None \<Rightarrow> Inl AssertionFailed
      | Some points \<Rightarrow>
          if v < length points \<and> v < length normals then
            face_contour m normals hs (contour @ [(points ! v, normals ! v)])
          else Inl InvalidAccess)"

text \<open>Lines 154 to 161: three positions, three normals and three copies of the face's colour
  per triangle.\<close>

fun emit_triangles ::
  "payload list \<Rightarrow> vec3 \<Rightarrow> (nat \<times> nat \<times> nat) list \<Rightarrow> vec3 list \<times> vec3 list \<times> vec3 list
     \<Rightarrow> error + vec3 list \<times> vec3 list \<times> vec3 list"
where
  "emit_triangles vts color [] streams = Inr streams"
| "emit_triangles vts color ((a, b, c) # ts) (d_points, d_normals, d_colors) =
     (if a < length vts \<and> b < length vts \<and> c < length vts then
        emit_triangles vts color ts
          (d_points @ [fst (vts ! a), fst (vts ! b), fst (vts ! c)],
           d_normals @ [snd (vts ! a), snd (vts ! b), snd (vts ! c)],
           d_colors @ replicate 3 color)
      else Inl InvalidAccess)"

type_synonym flat_state =
  "(face \<Rightarrow> int \<times> int) \<times> vec3 list \<times> vec3 list \<times> vec3 list \<times> int"

text \<open>Lines 139 to 163: the body of the loop over the faces, per-face colours. \<open>num\<close> is
  a \<open>size_t\<close> here: \<open>count_triangles + num - 1\<close> is computed unsigned and converted
  back to \<open>int\<close>, which is the integer result, \<open>-1\<close> included.\<close>

definition tessellate_face ::
  "tessellator \<Rightarrow> (face \<Rightarrow> vec3) \<Rightarrow> surface_mesh \<Rightarrow> vec3 list \<Rightarrow> (face \<Rightarrow> vec3) \<Rightarrow> face
     \<Rightarrow> flat_state \<Rightarrow> error + flat_state"
where
  "tessellate_face tess compute_face_normal m normals face_colors face st =
     (case st of (triangle_range, d_points, d_normals, d_colors, count_triangles) \<Rightarrow>
      (case face_contour m normals (halfedges m face) [] of
         Inl e \<Rightarrow> Inl e
       | Inr contour \<Rightarrow>
           (case tess (compute_face_normal face) contour of (vts, triangles) \<Rightarrow>
            (case emit_triangles vts (face_colors face) triangles
                    (d_points, d_normals, d_colors) of
               Inl e \<Rightarrow> Inl e
             | Inr (d_points', d_normals', d_colors') \<Rightarrow>
                 let num = int (length triangles) in
                 Inr (triangle_range(face := (count_triangles, count_triangles + num - 1)),
                      d_points', d_normals', d_colors', count_triangles + num)))))"

fun tessellate_faces ::
  "tessellator \<Rightarrow> (face \<Rightarrow> vec3) \<Rightarrow> surface_mesh \<Rightarrow> vec3 list \<Rightarrow> (face \<Rightarrow> vec3) \<Rightarrow> face list
     \<Rightarrow> flat_state \<Rightarrow> error + flat_state"
where
  "tessellate_faces tess cfn m normals face_colors [] st = Inr st"
| "tessellate_faces tess cfn m normals face_colors (face # fs) st =
     (case tessellate_face tess cfn m normals face_colors face st of
        Inl e \<Rightarrow> Inl e
      | Inr st' \<Rightarrow> tessellate_faces tess cfn m normals face_colors fs st')"

text \<open>Lines 198 to 206: the fan around \<open>va\<close>. The loop ends when \<open>cur\<close> is back at
  \<open>start\<close>; on a mesh where it never is, the result is \<open>None\<close>.\<close>

partial_function (option) fan_triangles ::
  "surface_mesh \<Rightarrow> halfedge \<Rightarrow> vertex \<Rightarrow> halfedge \<Rightarrow> nat list \<Rightarrow> int \<Rightarrow> (nat list \<times> int) option"
where
  "fan_triangles m start va cur indices num =
     (if cur \<noteq> start then
        fan_triangles m start va (next_halfedge m cur)
          (indices @ [va, from_vertex m cur, to_vertex m cur]) (num + 1)
      else Some (indices, num))"

declare fan_triangles.simps [code]

type_synonym indexed_state = "(face \<Rightarrow> int \<times> int) \<times> nat list \<times> int"

text \<open>Lines 194 to 209: the body of the loop over the faces, per-vertex attributes.\<close>

definition fan_face :: "surface_mesh \<Rightarrow> face \<Rightarrow> indexed_state \<Rightarrow> indexed_state option" where
  "fan_face m face st =
     (case st of (triangle_range, indices, count_triangles) \<Rightarrow>
      (let start = halfedge m face;
           cur = next_halfedge m (next_halfedge m start);
           va = to_vertex m start
       in case fan_triangles m start va cur indices 0 of
            None \<Rightarrow> None
          | Some (indices', num) \<Rightarrow>
              Some (triangle_range(face := (count_triangles, count_triangles + num - 1)),
                    indices', count_triangles + num)))"

fun fan_faces :: "surface_mesh \<Rightarrow> face list \<Rightarrow> indexed_state \<Rightarrow> indexed_state option" where
  "fan_faces m [] st = Some st"
| "fan_faces m (face # fs) st =
     (case fan_face m face st of None \<Rightarrow> None | Some st' \<Rightarrow> fan_faces m fs st')"

text \<open>
  The overload. Beside the model and the drawable it returns the final value of the local
  counter \<open>count_triangles\<close>, so that it can be spoken about. \<open>compute_face_normal\<close> and
  \<open>compute_vertex_normal\<close> are the mesh's functions of those names.
\<close>

definition update_data_mesh_triangles ::
  "tessellator \<Rightarrow> (face \<Rightarrow> vec3) \<Rightarrow> (vertex \<Rightarrow> vec3) \<Rightarrow> surface_mesh option
     \<Rightarrow> triangles_drawable option \<Rightarrow> error + surface_mesh \<times> triangles_drawable \<times> int"
where
  "update_data_mesh_triangles tess compute_face_normal compute_vertex_normal model drawable =
     (case model of None \<Rightarrow> Inl AssertionFailed | Some m0 \<Rightarrow>
     (case drawable of None \<Rightarrow> Inl AssertionFailed | Some d \<Rightarrow>
      (let triangle_range = face_property_triangle_range m0;
           m = update_vertex_normals compute_vertex_normal m0;
           normals = property_array (v_normal m)
       in
         (case f_color m of
            Some face_colors \<Rightarrow>
              (case tessellate_faces tess compute_face_normal m normals face_colors (faces m)
                      (triangle_range, [], [], [], 0) of
                 Inl e \<Rightarrow> Inl e
               | Inr (triangle_range', d_points, d_normals, d_colors, count_triangles) \<Rightarrow>
                   Inr (m\<lparr>f_triangle_range := Some triangle_range'\<rparr>,
                        release_element_buffer
                          (set_per_vertex_color True
                            (update_color_buffer d_colors
                              (update_normal_buffer d_normals
                                (update_vertex_buffer d_points d)))),
                        count_triangles))
          | None \<Rightarrow>
              (case v_point_property m of None \<Rightarrow> Inl AssertionFailed | Some points \<Rightarrow>
              (let d1 = update_vertex_buffer points d;
                   d2 = (case v_color m of
                           Some colors \<Rightarrow>
                             set_per_vertex_color True (update_color_buffer colors d1)
                         | None \<Rightarrow> d1);
                   d3 = (case v_texcoord m of
                           Some vertex_texcoords \<Rightarrow> update_texcoord_buffer vertex_texcoords d2
                         | None \<Rightarrow> d2);
                   m' = (case v_normal m of
                           None \<Rightarrow> update_vertex_normals compute_vertex_normal m
                         | Some _ \<Rightarrow> m)
               in case v_normal m' of None \<Rightarrow> Inl InvalidAccess | Some normals' \<Rightarrow>
                 (let d4 = update_normal_buffer normals' d3
                  in case fan_faces m' (faces m') (triangle_range, [], 0) of
                       None \<Rightarrow> Inl NoReturn
                     | Some (triangle_range', indices, count_triangles) \<Rightarrow>
                         Inr (m'\<lparr>f_triangle_range := Some triangle_range'\<rparr>,
                              update_index_buffer indices d4,
                              count_triangles))))))))"

subsection \<open>Well-formed meshes\<close>

text \<open>
  What the marshaller relies on from the mesh: it has positions, it hands out every face
  once, and the halfedges of a face close to a cycle between vertices that have a
  position. \<open>halfedges(face)\<close> starts at
  \<open>halfedge(face)\<close> and follows \<open>next_halfedge\<close> until it is back there:
  \<open>cycle_back next start cur hs\<close> says that walking from \<open>cur\<close> visits exactly \<open>hs\<close>,
  none of them \<open>start\<close>, and then reaches \<open>start\<close>.
\<close>

fun cycle_back :: "(halfedge \<Rightarrow> halfedge) \<Rightarrow> halfedge \<Rightarrow> halfedge \<Rightarrow> halfedge list \<Rightarrow> bool" where
  "cycle_back nxt start cur [] = (cur = start)"
| "cycle_back nxt start cur (h # hs) = (cur = h \<and> h \<noteq> start \<and> cycle_back nxt start (nxt h) hs)"

definition face_circulates :: "surface_mesh \<Rightarrow> face \<Rightarrow> bool" where
  "face_circulates m f =
     (case halfedges m f of
        [] \<Rightarrow> False
      | h0 # rest \<Rightarrow>
          h0 = halfedge m f \<and> cycle_back (next_halfedge m) h0 (next_halfedge m h0) rest)"

definition face_vertices_valid :: "surface_mesh \<Rightarrow> face \<Rightarrow> bool" where
  "face_vertices_valid m f =
     list_all (\<lambda>h. to_vertex m h < length (v_point m) \<and> from_vertex m h < length (v_point m))
       (halfedges m f)"

definition mesh_wellformed :: "surface_mesh \<Rightarrow> bool" where
  "mesh_wellformed m =
     (v_point_property m \<noteq> None \<and> distinct (faces m) \<and>
      list_all (\<lambda>f. face_circulates m f \<and> face_vertices_valid m f) (faces m))"

text \<open>The triangle indices of a face: the inclusive range stored for it.\<close>

definition triangles_of :: "(face \<Rightarrow> int \<times> int) \<Rightarrow> face \<Rightarrow> int set" where
  "triangles_of triangle_range f = {fst (triangle_range f) .. snd (triangle_range f)}"

text \<open>The ranges of the faces in \<open>S\<close> partition \<open>[0, n)\<close>: each lies inside it, two of
  different faces share nothing, and together they cover it.\<close>

definition ranges_partition :: "face set \<Rightarrow> (face \<Rightarrow> int \<times> int) \<Rightarrow> int \<Rightarrow> bool" where
  "ranges_partition S triangle_range n =
     (0 \<le> n \<and>
      (\<forall>f\<in>S. triangles_of triangle_range f \<subseteq> {0 ..< n}) \<and>
      (\<forall>f\<in>S. \<forall>g\<in>S. f \<noteq> g \<longrightarrow>
         triangles_of triangle_range f \<inter> triangles_of triangle_range g = {}) \<and>
      (\<forall>t\<in>{0 ..< n}. \<exists>f\<in>S. t \<in> triangles_of triangle_range f))"

text \<open>The fan of a face in terms of its halfedges: one triangle for every halfedge after the
  first two.\<close>

definition fan_indices :: "surface_mesh \<Rightarrow> face \<Rightarrow> nat list" where
  "fan_indices m f =
     concat (map (\<lambda>cur. [to_vertex m (halfedge m f), from_vertex m cur, to_vertex m cur])
                 (drop 2 (halfedges m f)))"

subsection \<open>Example data\<close>

text \<open>
  A single quad with vertices 0, 1, 2, 3 in this order. Edge \<open>e\<close> has the halfedges \<open>2e\<close>
  and \<open>2e + 1\<close>; the halfedges inside the face are 0 (\<open>0 \<rightarrow> 1\<close>), 2 (\<open>1 \<rightarrow> 2\<close>),
  4 (\<open>2 \<rightarrow> 3\<close>) and 6 (\<open>3 \<rightarrow> 0\<close>), and the face's halfedge is the last one, 6.
\<close>

definition quad_mesh :: surface_mesh where
  "quad_mesh =
     \<lparr> faces = [0], edges = [0, 1, 2, 3],
       halfedge = (\<lambda>f. 6),
       halfedges = (\<lambda>f. [6, 0, 2, 4]),
       next_halfedge = (\<lambda>h. [2, 7, 4, 1, 6, 3, 0, 5] ! h),
       to_vertex = (\<lambda>h. [1, 0, 2, 1, 3, 2, 0, 3] ! h),
       from_vertex = (\<lambda>h. [0, 1, 1, 2, 2, 3, 3, 0] ! h),
       edge_vertex = (\<lambda>e i. [1, 0, 2, 1, 3, 2, 0, 3] ! (2 * e + i)),
       v_point_property = Some [(0, 0, 0), (1, 0, 0), (1, 1, 0), (0, 1, 0)],
       v_normal = None, v_color = None, v_texcoord = None,
       f_color = None, f_triangle_range = None \<rparr>"

text \<open>
  The quad and a triangle (2, 1, 4) on its edge between 1 and 2. The triangle's halfedges are
  3 (\<open>2 \<rightarrow> 1\<close>), 8 (\<open>1 \<rightarrow> 4\<close>) and 10 (\<open>4 \<rightarrow> 2\<close>), its face's halfedge is 10.
\<close>

definition house_mesh :: surface_mesh where
  "house_mesh =
     \<lparr> faces = [0, 1], edges = [0, 1, 2, 3, 4, 5],
       halfedge = (\<lambda>f. [6, 10] ! f),
       halfedges = (\<lambda>f. [[6, 0, 2, 4], [10, 3, 8]] ! f),
       next_halfedge = (\<lambda>h. [2, 7, 4, 8, 6, 11, 0, 5, 10, 1, 3, 9] ! h),
       to_vertex = (\<lambda>h. [1, 0, 2, 1, 3, 2, 0, 3, 4, 1, 2, 4] ! h),
       from_vertex = (\<lambda>h. [0, 1, 1, 2, 2, 3, 3, 0, 1, 4, 4, 2] ! h),
       edge_vertex = (\<lambda>e i. [1, 0, 2, 1, 3, 2, 0, 3, 4, 1, 2, 4] ! (2 * e + i)),
       v_point_property = Some [(0, 0, 0), (1, 0, 0), (1, 1, 0), (0, 1, 0), (2, 1, 0)],
       v_normal = None, v_color = None, v_texcoord = None,
       f_color = None, f_triangle_range = None \<rparr>"

definition red :: vec3 where "red = (1, 0, 0)"
definition blue :: vec3 where "blue = (0, 0, 1)"
definition up :: vec3 where "up = (0, 0, 1)"

text \<open>A tessellator for convex contours: it returns the contour's vertices and the fan
  around the first of them.\<close>

definition fan_tessellator :: tessellator where
  "fan_tessellator normal contour =
     (contour, map (\<lambda>i. (0, i + 1, i + 2)) [0 ..< length contour - 2])"

definition blank :: triangles_drawable where
  "blank = \<lparr> vertex_buffer = None, normal_buffer = None, color_buffer = None,
             texcoord_buffer = None, index_buffer = None,
             default_color = (0, 0, 0), per_vertex_color = False \<rparr>"

definition east :: vec3 where "east = (1, 0, 0)"

definition blank_points :: points_drawable where
  "blank_points = \<lparr> vertex_buffer = None, normal_buffer = None, color_buffer = None,
                    texcoord_buffer = None, index_buffer = None,
                    default_color = (0, 0, 0), per_vertex_color = True,
                    point_size = 1, points_impostor_type = PLAIN \<rparr>"

definition blank_lines :: lines_drawable where
  "blank_lines = \<lparr> vertex_buffer = None, normal_buffer = None, color_buffer = None,
                   texcoord_buffer = None, index_buffer = None,
                   default_color = (0, 0, 0), per_vertex_color = True,
                   line_width = 1, lines_impostor_type = LINE \<rparr>"

definition some_setting :: setting where
  "some_setting = \<lparr> point_cloud_points_color = (1, 1, 1),
                    surface_mesh_vertices_color = (1, 0, 0),
                    surface_mesh_vertices_point_size = 5,
                    surface_mesh_edges_color = (0, 0, 0),
                    surface_mesh_edges_line_width = 1 \<rparr>"

text \<open>A colour source whose state is a counter: the \<open>s\<close>-th colour drawn is
  \<open>((s + 1) / 10, 1 / 2, 1)\<close>.\<close>

definition counting_color :: "nat \<Rightarrow> vec3 \<times> nat" where
  "counting_color s = (((real s + 1) / 10, 1 / 2, 1), Suc s)"

text \<open>The segmented cloud of four points with types 0, 0, 1, -1 and indices 0, 0, 1, 0.\<close>

definition segmented_cloud :: point_cloud where
  "segmented_cloud =
     \<lparr> vertices = [0, 1, 2, 3],
       cloud_point_property = Some [(0, 0, 0), (1, 0, 0), (0, 1, 0), (0, 0, 1)],
       cloud_normal = None, cloud_color = None,
       v_primitive_type = Some (\<lambda>v. [0, 0, 1, -1] ! v),
       v_primitive_index = Some (\<lambda>v. [0, 0, 1, 0] ! v) \<rparr>"

definition plain_cloud :: point_cloud where
  "plain_cloud =
     \<lparr> vertices = [0, 1, 2],
       cloud_point_property = Some [(0, 0, 0), (1, 0, 0), (0, 1, 0)],
       cloud_normal = None, cloud_color = None,
       v_primitive_type = None, v_primitive_index = None \<rparr>"

definition path_graph :: graph where
  "path_graph =
     \<lparr> graph_point_property = Some [(0, 0, 0), (1, 0, 0), (2, 0, 0)],
       graph_edges = [0, 1],
       graph_from_vertex = (\<lambda>e. [0, 1] ! e),
       graph_to_vertex = (\<lambda>e. [1, 2] ! e) \<rparr>"

text \<open>The house with a colour for each face.\<close>

definition colored_house :: surface_mesh where
  "colored_house = house_mesh\<lparr>f_color := Some (\<lambda>f. [red, blue] ! f)\<rparr>"

text \<open>What the marshal leaves behind on the two houses, with \<open>up\<close> for every computed
  normal and the fan tessellator.\<close>

definition house_ranges :: "face \<Rightarrow> int \<times> int" where
  "house_ranges = (\<lambda>f. (0, 0))(0 := (0, 1), 1 := (2, 2))"

definition house_indexed :: triangles_drawable where
  "house_indexed =
     blank\<lparr>vertex_buffer := Some [(0, 0, 0), (1, 0, 0), (1, 1, 0), (0, 1, 0), (2, 1, 0)],
           normal_buffer := Some [up, up, up, up, up],
           index_buffer := Some [0, 1, 2, 0, 2, 3, 2, 1, 4]\<rparr>"

definition house_flat :: triangles_drawable where
  "house_flat =
     blank\<lparr>vertex_buffer :=
             Some [(0, 0, 0), (1, 0, 0), (1, 1, 0), (0, 0, 0), (1, 1, 0), (0, 1, 0),
                   (1, 1, 0), (1, 0, 0), (2, 1, 0)],
           normal_buffer := Some [up, up, up, up, up, up, up, up, up],
           color_buffer := Some [red, red, red, red, red, red, blue, blue, blue],
           per_vertex_color := True\<rparr>"

text \<open>A face with two halfedges only: two edges between the vertices 0 and 1, the halfedges
  2 (\<open>1 \<rightarrow> 0\<close>) and 0 (\<open>0 \<rightarrow> 1\<close>) inside the face.\<close>

definition digon_mesh :: surface_mesh where
  "digon_mesh =
     \<lparr> faces = [0], edges = [0, 1],
       halfedge = (\<lambda>f. 2),
       halfedges = (\<lambda>f. [2, 0]),
       next_halfedge = (\<lambda>h. [2, 3, 0, 1] ! h),
       to_vertex = (\<lambda>h. [1, 0, 0, 1] ! h),
       from_vertex = (\<lambda>h. [0, 1, 1, 0] ! h),
       edge_vertex = (\<lambda>e i. [1, 0, 0, 1] ! (2 * e + i)),
       v_point_property = Some [(0, 0, 0), (1, 0, 0)],
       v_normal = None, v_color = None, v_texcoord = None,
       f_color = None, f_triangle_range = None \<rparr>"

text \<open>The drawables the marshallers leave behind on the example models, starting from the
  blank ones.\<close>

definition segmented_points :: points_drawable where
  "segmented_points =
     blank_points\<lparr>vertex_buffer := Some [(0, 0, 0), (1, 0, 0), (0, 1, 0), (0, 0, 1)],
                  color_buffer := Some [(1 / 10, 1 / 2, 1), (1 / 10, 1 / 2, 1),
                                        (1 / 5, 1 / 2, 1), (0, 0, 0)]\<rparr>"

definition house_points :: points_drawable where
  "house_points =
     blank_points\<lparr>vertex_buffer := Some [(0, 0, 0), (1, 0, 0), (1, 1, 0), (0, 1, 0), (2, 1, 0)],
                  default_color := (1, 0, 0), per_vertex_color := False,
                  point_size := 5, points_impostor_type := SPHERE\<rparr>"

definition house_lines :: lines_drawable where
  "house_lines =
     blank_lines\<lparr>vertex_buffer := Some [(0, 0, 0), (1, 0, 0), (1, 1, 0), (0, 1, 0), (2, 1, 0)],
                 index_buffer := Some [1, 0, 2, 1, 3, 2, 0, 3, 4, 1, 2, 4],
                 default_color := (0, 0, 0), per_vertex_color := False, line_width := 1\<rparr>"

definition path_points :: points_drawable where
  "path_points =
     blank_points\<lparr>vertex_buffer := Some [(0, 0, 0), (1, 0, 0), (2, 0, 0)],
                  default_color := (1, 0, 0), per_vertex_color := False,
                  point_size := 15, points_impostor_type := SPHERE\<rparr>"

definition path_lines :: lines_drawable where
  "path_lines =
     blank_lines\<lparr>vertex_buffer := Some [(0, 0, 0), (1, 0, 0), (2, 0, 0)],
                 index_buffer := Some [0, 1, 1, 2],
                 default_color := (1, 67 / 100, 1 / 2), per_vertex_color := False,
                 line_width := 3, lines_impostor_type := CYLINDER\<rparr>"

text \<open>The quad with normals stored on it, all pointing east.\<close>

definition quad_with_normals :: surface_mesh where
  "quad_with_normals = quad_mesh\<lparr>v_normal := Some [east, east, east, east]\<rparr>"







section \<open>Properties\<close>

lemmas drawable_ops =
  update_vertex_buffer_def update_normal_buffer_def update_color_buffer_def
  update_texcoord_buffer_def update_index_buffer_def release_element_buffer_def
  set_default_color_def set_per_vertex_color_def set_point_size_def
  set_points_impostor_type_def set_line_width_def set_lines_impostor_type_def

subsection \<open>Positions\<close>

text \<open>The positions of a mesh are those of its \<open>v:point\<close>, whatever the other
  properties are.\<close>

lemma v_point_update [simp]:
  "v_point (m\<lparr>v_normal := a\<rparr>) = v_point m"
  "v_point (m\<lparr>f_color := b\<rparr>) = v_point m"
  "v_point (m\<lparr>f_triangle_range := c\<rparr>) = v_point m"
  "v_point (m\<lparr>v_point_property := Some ps\<rparr>) = ps"
  by (simp_all add: v_point_def property_array_def)

lemma v_point_present:
  "v_point_property m = Some ps \<Longrightarrow> v_point m = ps"
  by (simp add: v_point_def property_array_def)

subsection \<open>Triangle ranges\<close>

lemma ranges_partition_empty: "ranges_partition {} tr 0"
  by (simp add: ranges_partition_def)

lemma ranges_partition_step:
  assumes P: "ranges_partition S tr c" and new: "f \<notin> S" and k: "0 \<le> k"
  shows "ranges_partition (insert f S) (tr(f := (c, c + k - 1))) (c + k)"
proof -
  let ?tr = "tr(f := (c, c + k - 1))"
  from P have c: "0 \<le> c"
    and inside: "\<And>g. g \<in> S \<Longrightarrow> triangles_of tr g \<subseteq> {0 ..< c}"
    and apart: "\<And>g h. g \<in> S \<Longrightarrow> h \<in> S \<Longrightarrow> g \<noteq> h \<Longrightarrow> triangles_of tr g \<inter> triangles_of tr h = {}"
    and cover: "\<And>t. t \<in> {0 ..< c} \<Longrightarrow> \<exists>g\<in>S. t \<in> triangles_of tr g"
    by (auto simp: ranges_partition_def)
  have old: "triangles_of ?tr g = triangles_of tr g" if "g \<in> S" for g
    using that new by (auto simp: triangles_of_def)
  have this_face: "triangles_of ?tr f = {c ..< c + k}"
    by (auto simp: triangles_of_def)
  have 1: "\<forall>g\<in>insert f S. triangles_of ?tr g \<subseteq> {0 ..< c + k}"
  proof
    fix g assume "g \<in> insert f S"
    then show "triangles_of ?tr g \<subseteq> {0 ..< c + k}"
    proof
      assume "g = f"
      with c this_face show ?thesis by auto
    next
      assume "g \<in> S"
      with inside [of g] old [of g] k show ?thesis by auto
    qed
  qed
  have fS: "triangles_of ?tr f \<inter> triangles_of ?tr g = {}" if "g \<in> S" for g
    using inside [OF that] old [OF that] this_face by auto
  have 2: "\<forall>g\<in>insert f S. \<forall>h\<in>insert f S. g \<noteq> h \<longrightarrow>
             triangles_of ?tr g \<inter> triangles_of ?tr h = {}"
  proof (intro ballI impI)
    fix g h assume g: "g \<in> insert f S" and h: "h \<in> insert f S" and ne: "g \<noteq> h"
    consider "g = f" "h \<in> S" | "h = f" "g \<in> S" | "g \<in> S" "h \<in> S"
      using g h ne by auto
    then show "triangles_of ?tr g \<inter> triangles_of ?tr h = {}"
    proof cases
      case 1 then show ?thesis using fS [of h] by simp
    next
      case 2 then show ?thesis using fS [of g] by (simp add: Int_commute)
    next
      case 3 then show ?thesis using apart [OF 3 ne] old by simp
    qed
  qed
  have 3: "\<forall>t\<in>{0 ..< c + k}. \<exists>g\<in>insert f S. t \<in> triangles_of ?tr g"
  proof
    fix t assume t: "t \<in> {0 ..< c + k}"
    show "\<exists>g\<in>insert f S. t \<in> triangles_of ?tr g"
    proof (cases "t < c")
      case True
      with t cover [of t] obtain g where "g \<in> S" "t \<in> triangles_of tr g" by auto
      with old [of g] show ?thesis by auto
    next
      case False
      with t this_face show ?thesis by auto
    qed
  qed
  from c k 1 2 3 show ?thesis
    unfolding ranges_partition_def by simp
qed

lemma fan_triangles_result:
  assumes h: "fan_triangles m start va cur indices num = Some y"
  shows "num \<le> snd y \<and> int (length (fst y)) = int (length indices) + 3 * (snd y - num)"
proof (rule fan_triangles.raw_induct
    [where P = "\<lambda>m start va cur indices num y.
       num \<le> snd y \<and> int (length (fst y)) = int (length indices) + 3 * (snd y - num)", OF _ h])
  fix fan m start va cur indices num y
  assume IH: "\<And>m start va cur indices num y. fan m start va cur indices num = Some y \<Longrightarrow>
       num \<le> snd y \<and> int (length (fst y)) = int (length indices) + 3 * (snd y - num)"
    and step: "(if cur \<noteq> start
      then fan m start va (next_halfedge m cur)
            (indices @ [va, from_vertex m cur, to_vertex m cur]) (num + 1)
      else Some (indices, num)) = Some y"
  show "num \<le> snd y \<and> int (length (fst y)) = int (length indices) + 3 * (snd y - num)"
  proof (cases "cur = start")
    case True
    with step show ?thesis by auto
  next
    case False
    with step have "fan m start va (next_halfedge m cur)
          (indices @ [va, from_vertex m cur, to_vertex m cur]) (num + 1) = Some y" by simp
    from IH [OF this] show ?thesis by simp
  qed
qed

lemma fan_face_result:
  assumes "fan_face m f (tr, indices, c) = Some st'"
  shows "\<exists>k indices'. 0 \<le> k \<and> st' = (tr(f := (c, c + k - 1)), indices', c + k) \<and>
           int (length indices') = int (length indices) + 3 * k"
proof -
  from assms obtain indices' num where
    fan: "fan_triangles m (halfedge m f) (to_vertex m (halfedge m f))
            (next_halfedge m (next_halfedge m (halfedge m f))) indices 0 = Some (indices', num)"
    and st': "st' = (tr(f := (c, c + num - 1)), indices', c + num)"
    by (auto simp: fan_face_def Let_def split: option.splits)
  from fan_triangles_result [OF fan] st' show ?thesis by auto
qed

lemma fan_faces_partition:
  assumes "fan_faces m fs (tr, indices, c) = Some (tr', indices', c')"
    and "distinct fs" and "set fs \<inter> S = {}" and "ranges_partition S tr c"
  shows "ranges_partition (S \<union> set fs) tr' c' \<and>
         int (length indices') - 3 * c' = int (length indices) - 3 * c"
  using assms
proof (induction fs arbitrary: tr indices c S)
  case Nil
  then show ?case by simp
next
  case (Cons f fs)
  from Cons.prems(1) obtain st1 where
    s1: "fan_face m f (tr, indices, c) = Some st1" and r: "fan_faces m fs st1 = Some (tr', indices', c')"
    by (auto split: option.splits)
  from fan_face_result [OF s1] obtain k ind1 where k: "0 \<le> k"
    and st1: "st1 = (tr(f := (c, c + k - 1)), ind1, c + k)"
    and len: "int (length ind1) = int (length indices) + 3 * k" by blast
  from Cons.prems have fS: "f \<notin> S" and d: "distinct fs" and ffs: "f \<notin> set fs"
    and dis: "set fs \<inter> insert f S = {}" by auto
  have P1: "ranges_partition (insert f S) (tr(f := (c, c + k - 1))) (c + k)"
    by (rule ranges_partition_step [OF Cons.prems(4) fS k])
  from Cons.IH [OF r [unfolded st1] d dis P1] len
  show ?case by (simp add: Un_commute insert_commute Un_insert_left) 
qed

lemma emit_triangles_result:
  "emit_triangles vts color ts (ps, ns, cs) = Inr (ps', ns', cs') \<Longrightarrow>
   length ps' = length ps + 3 * length ts \<and>
   length ns' = length ns + 3 * length ts \<and>
   length cs' = length cs + 3 * length ts"
proof (induction ts arbitrary: ps ns cs)
  case Nil
  then show ?case by simp
next
  case (Cons t ts)
  obtain a b c where t: "t = (a, b, c)" by (cases t)
  from Cons.prems have
    "emit_triangles vts color ts
       (ps @ [fst (vts ! a), fst (vts ! b), fst (vts ! c)],
        ns @ [snd (vts ! a), snd (vts ! b), snd (vts ! c)],
        cs @ replicate 3 color) = Inr (ps', ns', cs')"
    by (simp add: t split: if_splits)
  from Cons.IH [OF this] show ?case by simp
qed

lemma tessellate_face_result:
  assumes "tessellate_face tess cfn m normals fc f (tr, ps, ns, cs, c) = Inr st'"
  shows "\<exists>k ps' ns' cs'. st' = (tr(f := (c, c + int k - 1)), ps', ns', cs', c + int k) \<and>
           length ps' = length ps + 3 * k \<and> length ns' = length ns + 3 * k \<and>
           length cs' = length cs + 3 * k"
proof -
  from assms obtain contour vts triangles ps' ns' cs' where
    "emit_triangles vts (fc f) triangles (ps, ns, cs) = Inr (ps', ns', cs')"
    and "st' = (tr(f := (c, c + int (length triangles) - 1)), ps', ns', cs',
                c + int (length triangles))"
    by (auto simp: tessellate_face_def Let_def split: sum.splits prod.splits)
  with emit_triangles_result [of vts "fc f" triangles ps ns cs ps' ns' cs']
  show ?thesis by blast
qed

lemma tessellate_faces_partition:
  assumes "tessellate_faces tess cfn m normals fc fs (tr, ps, ns, cs, c) = Inr (tr', ps', ns', cs', c')"
    and "distinct fs" and "set fs \<inter> S = {}" and "ranges_partition S tr c"
  shows "ranges_partition (S \<union> set fs) tr' c' \<and>
         int (length ps') - 3 * c' = int (length ps) - 3 * c \<and>
         int (length ns') - 3 * c' = int (length ns) - 3 * c \<and>
         int (length cs') - 3 * c' = int (length cs) - 3 * c"
  using assms
proof (induction fs arbitrary: tr ps ns cs c S)
  case Nil
  then show ?case by simp
next
  case (Cons f fs)
  from Cons.prems(1) obtain st1 where
    s1: "tessellate_face tess cfn m normals fc f (tr, ps, ns, cs, c) = Inr st1"
    and r: "tessellate_faces tess cfn m normals fc fs st1 = Inr (tr', ps', ns', cs', c')"
    by (auto split: sum.splits)
  from tessellate_face_result [OF s1] obtain k ps1 ns1 cs1 where
    st1: "st1 = (tr(f := (c, c + int k - 1)), ps1, ns1, cs1, c + int k)"
    and len: "length ps1 = length ps + 3 * k" "length ns1 = length ns + 3 * k"
      "length cs1 = length cs + 3 * k" by blast
  from Cons.prems have fS: "f \<notin> S" and d: "distinct fs"
    and dis: "set fs \<inter> insert f S = {}" by auto
  have P1: "ranges_partition (insert f S) (tr(f := (c, c + int k - 1))) (c + int k)"
    by (rule ranges_partition_step [OF Cons.prems(4) fS]) simp
  from Cons.IH [OF r [unfolded st1] d dis P1] len
  show ?case by (simp add: Un_commute insert_commute Un_insert_left)
qed

lemma ranges_partition_unique:
  assumes "ranges_partition S tr n" and "t \<in> {0 ..< n}"
  shows "\<exists>!f. f \<in> S \<and> t \<in> triangles_of tr f"
proof -
  from assms obtain f where f: "f \<in> S" "t \<in> triangles_of tr f"
    unfolding ranges_partition_def by blast
  have "g = f" if "g \<in> S" "t \<in> triangles_of tr g" for g
  proof (rule ccontr)
    assume "g \<noteq> f"
    with assms(1) that(1) f(1) have "triangles_of tr g \<inter> triangles_of tr f = {}"
      unfolding ranges_partition_def by blast
    with that(2) f(2) show False by auto
  qed
  with f show ?thesis by blast
qed

lemma update_data_mesh_triangles_ranges:
  assumes "distinct (faces m)"
    and "update_data_mesh_triangles tess cfn cvn (Some m) (Some d) = Inr (m', d', n)"
  shows "\<exists>tr. f_triangle_range m' = Some tr \<and> ranges_partition (set (faces m)) tr n"
proof (cases "f_color m")
  case None
  with assms(2) obtain tr' indices where
    loop: "fan_faces (update_vertex_normals cvn m) (faces m)
             (face_property_triangle_range m, [], 0) = Some (tr', indices, n)"
    and m': "f_triangle_range m' = Some tr'"
    by (auto simp: update_data_mesh_triangles_def update_vertex_normals_def Let_def
             split: option.splits)
  from fan_faces_partition [OF loop assms(1), of "{}"] ranges_partition_empty m'
  show ?thesis by simp
next
  case (Some fc)
  with assms(2) obtain tr' ps ns cs where
    loop: "tessellate_faces tess cfn (update_vertex_normals cvn m)
             (property_array (v_normal (update_vertex_normals cvn m))) fc (faces m)
             (face_property_triangle_range m, [], [], [], 0) = Inr (tr', ps, ns, cs, n)"
    and m': "f_triangle_range m' = Some tr'"
    by (auto simp: update_data_mesh_triangles_def update_vertex_normals_def Let_def
             split: sum.splits)
  from tessellate_faces_partition [OF loop assms(1), of "{}"] ranges_partition_empty m'
  show ?thesis by simp
qed

lemma ranges_partitionD:
  assumes "ranges_partition S tr n"
  shows "0 \<le> n"
    and "\<And>f. f \<in> S \<Longrightarrow> triangles_of tr f \<subseteq> {0 ..< n}"
    and "\<And>f g. f \<in> S \<Longrightarrow> g \<in> S \<Longrightarrow> f \<noteq> g \<Longrightarrow> triangles_of tr f \<inter> triangles_of tr g = {}"
    and "\<And>t. t \<in> {0 ..< n} \<Longrightarrow> \<exists>f\<in>S. t \<in> triangles_of tr f"
  using assms unfolding ranges_partition_def by simp_all

subsection \<open>The marshal on the example meshes\<close>

lemma house_mesh_fields:
  "faces house_mesh = [0, 1]"
  "edges house_mesh = [0, 1, 2, 3, 4, 5]"
  "halfedge house_mesh = (\<lambda>f. [6, 10] ! f)"
  "halfedges house_mesh = (\<lambda>f. [[6, 0, 2, 4], [10, 3, 8]] ! f)"
  "next_halfedge house_mesh = (\<lambda>h. [2, 7, 4, 8, 6, 11, 0, 5, 10, 1, 3, 9] ! h)"
  "to_vertex house_mesh = (\<lambda>h. [1, 0, 2, 1, 3, 2, 0, 3, 4, 1, 2, 4] ! h)"
  "from_vertex house_mesh = (\<lambda>h. [0, 1, 1, 2, 2, 3, 3, 0, 1, 4, 4, 2] ! h)"
  "edge_vertex house_mesh = (\<lambda>e i. [1, 0, 2, 1, 3, 2, 0, 3, 4, 1, 2, 4] ! (2 * e + i))"
  "v_point_property house_mesh = Some [(0, 0, 0), (1, 0, 0), (1, 1, 0), (0, 1, 0), (2, 1, 0)]"
  "v_point house_mesh = [(0, 0, 0), (1, 0, 0), (1, 1, 0), (0, 1, 0), (2, 1, 0)]"
  "v_normal house_mesh = None" "v_color house_mesh = None" "v_texcoord house_mesh = None"
  "f_color house_mesh = None" "f_triangle_range house_mesh = None"
  by (simp_all add: house_mesh_def v_point_def property_array_def)

lemma house_per_vertex:
  "update_data_mesh_triangles fan_tessellator (\<lambda>f. up) (\<lambda>v. up) (Some house_mesh) (Some blank) =
     Inr (house_mesh\<lparr>v_normal := Some [up, up, up, up, up],
                     f_triangle_range := Some house_ranges\<rparr>,
          house_indexed, 3)"
  by (simp add: update_data_mesh_triangles_def update_vertex_normals_def
        face_property_triangle_range_def fan_face_def fan_triangles.simps
        house_mesh_fields drawable_ops house_ranges_def house_indexed_def Let_def)

lemma house_per_face:
  "update_data_mesh_triangles fan_tessellator (\<lambda>f. up) (\<lambda>v. up) (Some colored_house) (Some blank) =
     Inr (colored_house\<lparr>v_normal := Some [up, up, up, up, up],
                        f_triangle_range := Some house_ranges\<rparr>,
          house_flat, 3)"
  by (simp add: update_data_mesh_triangles_def update_vertex_normals_def
        face_property_triangle_range_def tessellate_face_def fan_tessellator_def
        property_array_def colored_house_def numeral_3_eq_3 blank_def
        house_mesh_fields drawable_ops house_ranges_def house_flat_def Let_def)

subsection \<open>C1: the triangle ranges partition the triangle indices\<close>

text \<open>
  C1. After a surface-mesh triangles marshal, on either branch, the \<open>f:triangle_range\<close>
  values of the faces partition \<open>[0, count_triangles)\<close>: the ranges of two different
  faces are disjoint, together the ranges are exactly \<open>[0, count_triangles)\<close>, so every triangle
  index lies in the range of exactly one face, and a face with a non-empty range has
  \<open>0 \<le> first \<le> last < count_triangles\<close>. The faces are those the mesh iterates over,
  each of them once.
\<close>

theorem triangle_ranges_partition:
  assumes "distinct (faces m)"
    and "update_data_mesh_triangles tess cfn cvn (Some m) (Some d) = Inr (m', d', n)"
  shows "\<exists>tr. f_triangle_range m' = Some tr \<and>
           (\<Union>f\<in>set (faces m). triangles_of tr f) = {0 ..< n} \<and>
           (\<forall>f\<in>set (faces m). \<forall>g\<in>set (faces m). f \<noteq> g \<longrightarrow>
              triangles_of tr f \<inter> triangles_of tr g = {}) \<and>
           (\<forall>t\<in>{0 ..< n}. \<exists>!f. f \<in> set (faces m) \<and> t \<in> triangles_of tr f) \<and>
           (\<forall>f\<in>set (faces m). fst (tr f) \<le> snd (tr f) \<longrightarrow>
              0 \<le> fst (tr f) \<and> snd (tr f) < n)"
proof -
  from update_data_mesh_triangles_ranges [OF assms] obtain tr where
    tr: "f_triangle_range m' = Some tr" and P: "ranges_partition (set (faces m)) tr n" by blast
  note inside = ranges_partitionD(2) [OF P] and apart = ranges_partitionD(3) [OF P]
    and cover = ranges_partitionD(4) [OF P]
  have u: "(\<Union>f\<in>set (faces m). triangles_of tr f) = {0 ..< n}"
  proof (rule equalityI)
    show "(\<Union>f\<in>set (faces m). triangles_of tr f) \<subseteq> {0 ..< n}"
      using inside by (rule UN_least)
    show "{0 ..< n} \<subseteq> (\<Union>f\<in>set (faces m). triangles_of tr f)"
    proof
      fix t assume "t \<in> {0 ..< n}"
      from cover [OF this] show "t \<in> (\<Union>f\<in>set (faces m). triangles_of tr f)"
        by (rule UN_iff [THEN iffD2])
    qed
  qed
  have a: "\<forall>f\<in>set (faces m). \<forall>g\<in>set (faces m). f \<noteq> g \<longrightarrow>
              triangles_of tr f \<inter> triangles_of tr g = {}"
    using apart by simp
  have e: "\<forall>t\<in>{0 ..< n}. \<exists>!f. f \<in> set (faces m) \<and> t \<in> triangles_of tr f"
    using ranges_partition_unique [OF P] by (intro ballI)
  have b: "\<forall>f\<in>set (faces m). fst (tr f) \<le> snd (tr f) \<longrightarrow> 0 \<le> fst (tr f) \<and> snd (tr f) < n"
  proof (intro ballI impI)
    fix f assume f: "f \<in> set (faces m)" and ne: "fst (tr f) \<le> snd (tr f)"
    then have "fst (tr f) \<in> triangles_of tr f" "snd (tr f) \<in> triangles_of tr f"
      by (simp_all add: triangles_of_def)
    with inside [OF f] show "0 \<le> fst (tr f) \<and> snd (tr f) < n" by auto
  qed
  show ?thesis
    by (intro exI conjI) (rule tr u a e b)+
qed

text \<open>The house, without and with face colours: the quad gets the triangles 0 and 1, the
  triangle gets 2.\<close>

theorem triangle_ranges_partition_witness:
  "distinct (faces house_mesh) \<and>
   update_data_mesh_triangles fan_tessellator (\<lambda>f. up) (\<lambda>v. up) (Some house_mesh) (Some blank) =
     Inr (house_mesh\<lparr>v_normal := Some [up, up, up, up, up],
                     f_triangle_range := Some house_ranges\<rparr>, house_indexed, 3) \<and>
   update_data_mesh_triangles fan_tessellator (\<lambda>f. up) (\<lambda>v. up) (Some colored_house) (Some blank) =
     Inr (colored_house\<lparr>v_normal := Some [up, up, up, up, up],
                        f_triangle_range := Some house_ranges\<rparr>, house_flat, 3) \<and>
   triangles_of house_ranges 0 = {0 .. 1} \<and> triangles_of house_ranges 1 = {2 .. 2} \<and>
   (\<Union>f\<in>set (faces house_mesh). triangles_of house_ranges f) = {0 ..< 3} \<and>
   (\<Union>f\<in>set (faces colored_house). triangles_of house_ranges f) = {0 ..< 3} \<and>
   (\<exists>!f. f \<in> set (faces house_mesh) \<and> 2 \<in> triangles_of house_ranges f)"
proof -
  have h: "distinct (faces house_mesh)" and c: "distinct (faces colored_house)"
    by (simp_all add: house_mesh_fields colored_house_def)
  have r: "triangles_of house_ranges 0 = {0 .. 1}" "triangles_of house_ranges 1 = {2 .. 2}"
    by (simp_all add: triangles_of_def house_ranges_def)
  from triangle_ranges_partition [OF h house_per_vertex]
    triangle_ranges_partition [OF c house_per_face]
  have "(\<Union>f\<in>set (faces house_mesh). triangles_of house_ranges f) = {0 ..< 3}"
    "(\<Union>f\<in>set (faces colored_house). triangles_of house_ranges f) = {0 ..< 3}"
    "\<exists>!f. f \<in> set (faces house_mesh) \<and> 2 \<in> triangles_of house_ranges f"
    by simp_all
  with h r house_per_vertex house_per_face show ?thesis by (intro conjI)
qed

subsection \<open>C2: the flat streams of the per-face-colour branch\<close>

lemma tessellate_faces_lengths:
  assumes "tessellate_faces tess cfn m normals fc fs (tr, ps, ns, cs, c) = Inr (tr', ps', ns', cs', c')"
  shows "int (length ps') - 3 * c' = int (length ps) - 3 * c \<and>
         int (length ns') - 3 * c' = int (length ns) - 3 * c \<and>
         int (length cs') - 3 * c' = int (length cs) - 3 * c"
  using assms
proof (induction fs arbitrary: tr ps ns cs c)
  case Nil
  then show ?case by simp
next
  case (Cons f fs)
  from Cons.prems(1) obtain st1 where
    s1: "tessellate_face tess cfn m normals fc f (tr, ps, ns, cs, c) = Inr st1"
    and r: "tessellate_faces tess cfn m normals fc fs st1 = Inr (tr', ps', ns', cs', c')"
    by (auto split: sum.splits)
  from tessellate_face_result [OF s1] obtain k ps1 ns1 cs1 where
    st1: "st1 = (tr(f := (c, c + int k - 1)), ps1, ns1, cs1, c + int k)"
    and len: "length ps1 = length ps + 3 * k" "length ns1 = length ns + 3 * k"
      "length cs1 = length cs + 3 * k" by blast
  from Cons.IH [OF r [unfolded st1]] len show ?case by simp
qed

text \<open>
  C2. After the per-face-colour branch of the surface-mesh triangles marshal, the uploaded
  position, normal and colour streams each have exactly \<open>3 * count_triangles\<close> entries,
  per-vertex colour is on, and the index buffer is released.
\<close>

theorem per_face_color_streams:
  assumes "f_color m = Some fc"
    and "update_data_mesh_triangles tess cfn cvn (Some m) (Some d) = Inr (m', d', n)"
  shows "\<exists>ps ns cs. vertex_buffer d' = Some ps \<and> normal_buffer d' = Some ns \<and>
           color_buffer d' = Some cs \<and>
           int (length ps) = 3 * n \<and> int (length ns) = 3 * n \<and> int (length cs) = 3 * n \<and>
           per_vertex_color d' = True \<and> index_buffer d' = None"
proof -
  from assms obtain tr' ps ns cs where
    loop: "tessellate_faces tess cfn (update_vertex_normals cvn m)
             (property_array (v_normal (update_vertex_normals cvn m))) fc (faces m)
             (face_property_triangle_range m, [], [], [], 0) = Inr (tr', ps, ns, cs, n)"
    and d': "d' = release_element_buffer (set_per_vertex_color True
               (update_color_buffer cs (update_normal_buffer ns (update_vertex_buffer ps d))))"
    by (auto simp: update_data_mesh_triangles_def update_vertex_normals_def Let_def
             split: sum.splits)
  from tessellate_faces_lengths [OF loop] d' show ?thesis
    by (simp add: drawable_ops)
qed

theorem per_face_color_streams_witness:
  "f_color colored_house = Some (\<lambda>f. [red, blue] ! f) \<and>
   update_data_mesh_triangles fan_tessellator (\<lambda>f. up) (\<lambda>v. up) (Some colored_house) (Some blank) =
     Inr (colored_house\<lparr>v_normal := Some [up, up, up, up, up],
                        f_triangle_range := Some house_ranges\<rparr>, house_flat, 3) \<and>
   (\<exists>ps ns cs. vertex_buffer house_flat = Some ps \<and> normal_buffer house_flat = Some ns \<and>
      color_buffer house_flat = Some cs \<and>
      int (length ps) = 3 * 3 \<and> int (length ns) = 3 * 3 \<and> int (length cs) = 3 * 3 \<and>
      per_vertex_color house_flat = True \<and> index_buffer house_flat = None)"
proof -
  have c: "f_color colored_house = Some (\<lambda>f. [red, blue] ! f)"
    by (simp add: colored_house_def)
  from per_face_color_streams [OF c house_per_face] c house_per_face
  show ?thesis by (intro conjI)
qed

subsection \<open>The fan on a well-formed mesh\<close>

lemma fan_triangles_cycle:
  "cycle_back (next_halfedge m) start cur hs \<Longrightarrow>
   fan_triangles m start va cur indices num =
     Some (indices @ concat (map (\<lambda>h. [va, from_vertex m h, to_vertex m h]) hs),
           num + int (length hs))"
proof (induction hs arbitrary: cur indices num)
  case Nil
  then show ?case by (simp add: fan_triangles.simps)
next
  case (Cons h hs)
  from Cons.prems have c: "cur = h" "h \<noteq> start"
    and r: "cycle_back (next_halfedge m) start (next_halfedge m h) hs" by simp_all
  show ?case
    by (subst fan_triangles.simps) (simp add: c Cons.IH [OF r])
qed

lemma fan_face_circulates:
  assumes "face_circulates m f"
  shows "fan_face m f (tr, indices, c) =
           Some (tr(f := (c, c + int (length (halfedges m f) - 2) - 1)),
                 indices @ fan_indices m f,
                 c + int (length (halfedges m f) - 2))"
proof -
  from assms obtain h0 rest where hs: "halfedges m f = h0 # rest"
    and h0: "h0 = halfedge m f"
    and cyc: "cycle_back (next_halfedge m) h0 (next_halfedge m h0) rest"
    by (auto simp: face_circulates_def split: list.splits)
  show ?thesis
  proof (cases rest)
    case Nil
    with cyc have "next_halfedge m h0 = h0" by simp
    then have "fan_triangles m h0 (to_vertex m h0) (next_halfedge m (next_halfedge m h0)) indices 0
                 = Some (indices, 0)"
      by (simp add: fan_triangles.simps)
    with hs h0 Nil show ?thesis
      by (simp add: fan_face_def fan_indices_def)
  next
    case (Cons h1 rest')
    with cyc have n: "next_halfedge m h0 = h1"
      and r: "cycle_back (next_halfedge m) h0 (next_halfedge m h1) rest'" by simp_all
    from fan_triangles_cycle [OF r, of "to_vertex m h0" indices 0] n hs h0 Cons
    show ?thesis
      by (simp add: fan_face_def fan_indices_def)
  qed
qed

lemma fan_faces_circulate:
  assumes "list_all (face_circulates m) fs"
  shows "\<exists>tr' c'. fan_faces m fs (tr, indices, c) =
           Some (tr', indices @ concat (map (fan_indices m) fs), c')"
  using assms
proof (induction fs arbitrary: tr indices c)
  case Nil
  then show ?case by simp
next
  case (Cons f fs)
  then have f: "face_circulates m f" and fs: "list_all (face_circulates m) fs" by simp_all
  let ?tr = "tr(f := (c, c + int (length (halfedges m f) - 2) - 1))"
  let ?c = "c + int (length (halfedges m f) - 2)"
  from Cons.IH [OF fs] obtain tr' c' where
    "fan_faces m fs (?tr, indices @ fan_indices m f, ?c) =
       Some (tr', (indices @ fan_indices m f) @ concat (map (fan_indices m) fs), c')"
    by blast
  then have "fan_faces m (f # fs) (tr, indices, c) =
       Some (tr', indices @ concat (map (fan_indices m) (f # fs)), c')"
    by (simp add: fan_face_circulates [OF f])
  then show ?case by blast
qed

lemma fan_indices_valid:
  assumes "face_circulates m f" and "face_vertices_valid m f"
  shows "\<forall>i\<in>set (fan_indices m f). i < length (v_point m)"
proof -
  from assms(1) have "halfedge m f \<in> set (halfedges m f)"
    by (auto simp: face_circulates_def split: list.splits)
  moreover have "set (drop 2 (halfedges m f)) \<subseteq> set (halfedges m f)"
    by (rule set_drop_subset)
  ultimately show ?thesis
    using assms(2) by (auto simp: fan_indices_def face_vertices_valid_def list_all_iff)
qed

lemma fan_faces_length:
  assumes "fan_faces m fs (tr, indices, c) = Some (tr', indices', c')"
  shows "int (length indices') - 3 * c' = int (length indices) - 3 * c"
  using assms
proof (induction fs arbitrary: tr indices c)
  case Nil
  then show ?case by simp
next
  case (Cons f fs)
  from Cons.prems(1) obtain st1 where
    s1: "fan_face m f (tr, indices, c) = Some st1" and r: "fan_faces m fs st1 = Some (tr', indices', c')"
    by (auto split: option.splits)
  from fan_face_result [OF s1] obtain k ind1 where
    st1: "st1 = (tr(f := (c, c + k - 1)), ind1, c + k)"
    and len: "int (length ind1) = int (length indices) + 3 * k" by blast
  from Cons.IH [OF r [unfolded st1]] len show ?case by simp
qed

text \<open>The recomputed normals change neither the connectivity nor the positions.\<close>

lemma update_vertex_normals_fields:
  "faces (update_vertex_normals cvn m) = faces m"
  "halfedge (update_vertex_normals cvn m) = halfedge m"
  "halfedges (update_vertex_normals cvn m) = halfedges m"
  "next_halfedge (update_vertex_normals cvn m) = next_halfedge m"
  "to_vertex (update_vertex_normals cvn m) = to_vertex m"
  "from_vertex (update_vertex_normals cvn m) = from_vertex m"
  "v_point_property (update_vertex_normals cvn m) = v_point_property m"
  "v_point (update_vertex_normals cvn m) = v_point m"
  "v_color (update_vertex_normals cvn m) = v_color m"
  "v_texcoord (update_vertex_normals cvn m) = v_texcoord m"
  "f_color (update_vertex_normals cvn m) = f_color m"
  "f_triangle_range (update_vertex_normals cvn m) = f_triangle_range m"
  "v_normal (update_vertex_normals cvn m) = Some (map cvn [0 ..< length (v_point m)])"
  by (simp_all add: update_vertex_normals_def v_point_def)

lemma update_vertex_normals_wellformed:
  "face_circulates (update_vertex_normals cvn m) f = face_circulates m f"
  "face_vertices_valid (update_vertex_normals cvn m) f = face_vertices_valid m f"
  "fan_indices (update_vertex_normals cvn m) f = fan_indices m f"
  by (simp_all add: face_circulates_def face_vertices_valid_def fan_indices_def
        update_vertex_normals_fields split: list.split)

text \<open>The per-vertex branch in one equation.\<close>

lemma update_data_mesh_triangles_needs_points:
  assumes "f_color m = None"
    and "update_data_mesh_triangles tess cfn cvn (Some m) (Some d) = Inr r"
  shows "v_point_property m \<noteq> None"
  using assms
  by (cases "v_point_property m")
     (simp_all add: update_data_mesh_triangles_def update_vertex_normals_fields)

lemma update_data_mesh_triangles_per_vertex:
  assumes "f_color m = None" and "v_point_property m \<noteq> None"
  shows "update_data_mesh_triangles tess cfn cvn (Some m) (Some d) =
     (case fan_faces (update_vertex_normals cvn m) (faces m)
             (face_property_triangle_range m, [], 0) of
        None \<Rightarrow> Inl NoReturn
      | Some (tr', indices, n) \<Rightarrow>
          Inr ((update_vertex_normals cvn m)\<lparr>f_triangle_range := Some tr'\<rparr>,
               update_index_buffer indices
                 (update_normal_buffer (map cvn [0 ..< length (v_point m)])
                   (case v_texcoord m of
                      Some ts \<Rightarrow> update_texcoord_buffer ts
                        (case v_color m of
                           Some cs \<Rightarrow> set_per_vertex_color True
                             (update_color_buffer cs (update_vertex_buffer (v_point m) d))
                         | None \<Rightarrow> update_vertex_buffer (v_point m) d)
                    | None \<Rightarrow>
                        (case v_color m of
                           Some cs \<Rightarrow> set_per_vertex_color True
                             (update_color_buffer cs (update_vertex_buffer (v_point m) d))
                         | None \<Rightarrow> update_vertex_buffer (v_point m) d))),
               n))"
proof -
  from assms(2) obtain points where p: "v_point_property m = Some points" by blast
  then have v: "v_point m = points" by (rule v_point_present)
  show ?thesis
    by (simp add: update_data_mesh_triangles_def update_vertex_normals_fields Let_def
          assms(1) p v split: option.splits)
qed

lemma quad_mesh_fields:
  "faces quad_mesh = [0]"
  "edges quad_mesh = [0, 1, 2, 3]"
  "halfedge quad_mesh = (\<lambda>f. 6)"
  "halfedges quad_mesh = (\<lambda>f. [6, 0, 2, 4])"
  "next_halfedge quad_mesh = (\<lambda>h. [2, 7, 4, 1, 6, 3, 0, 5] ! h)"
  "to_vertex quad_mesh = (\<lambda>h. [1, 0, 2, 1, 3, 2, 0, 3] ! h)"
  "from_vertex quad_mesh = (\<lambda>h. [0, 1, 1, 2, 2, 3, 3, 0] ! h)"
  "edge_vertex quad_mesh = (\<lambda>e i. [1, 0, 2, 1, 3, 2, 0, 3] ! (2 * e + i))"
  "v_point_property quad_mesh = Some [(0, 0, 0), (1, 0, 0), (1, 1, 0), (0, 1, 0)]"
  "v_point quad_mesh = [(0, 0, 0), (1, 0, 0), (1, 1, 0), (0, 1, 0)]"
  "v_normal quad_mesh = None" "v_color quad_mesh = None" "v_texcoord quad_mesh = None"
  "f_color quad_mesh = None" "f_triangle_range quad_mesh = None"
  by (simp_all add: quad_mesh_def v_point_def property_array_def)

lemma digon_mesh_fields:
  "faces digon_mesh = [0]"
  "halfedge digon_mesh = (\<lambda>f. 2)"
  "halfedges digon_mesh = (\<lambda>f. [2, 0])"
  "next_halfedge digon_mesh = (\<lambda>h. [2, 3, 0, 1] ! h)"
  "to_vertex digon_mesh = (\<lambda>h. [1, 0, 0, 1] ! h)"
  "from_vertex digon_mesh = (\<lambda>h. [0, 1, 1, 0] ! h)"
  "v_point_property digon_mesh = Some [(0, 0, 0), (1, 0, 0)]"
  "v_point digon_mesh = [(0, 0, 0), (1, 0, 0)]"
  by (simp_all add: digon_mesh_def v_point_def property_array_def)

lemma house_mesh_wellformed: "mesh_wellformed house_mesh"
  by (simp add: mesh_wellformed_def face_circulates_def face_vertices_valid_def
        house_mesh_fields)

lemma house_per_vertex_drawable:
  "update_data_mesh_triangles tess cfn (\<lambda>v. up) (Some house_mesh) (Some d) =
     Inr (house_mesh\<lparr>v_normal := Some [up, up, up, up, up],
                     f_triangle_range := Some house_ranges\<rparr>,
          d\<lparr>vertex_buffer := Some [(0, 0, 0), (1, 0, 0), (1, 1, 0), (0, 1, 0), (2, 1, 0)],
            normal_buffer := Some [up, up, up, up, up],
            index_buffer := Some [0, 1, 2, 0, 2, 3, 2, 1, 4]\<rparr>, 3)"
  by (simp add: update_data_mesh_triangles_def update_vertex_normals_def
        face_property_triangle_range_def fan_face_def fan_triangles.simps
        house_mesh_fields drawable_ops house_ranges_def Let_def)

subsection \<open>C3: the index buffer of the per-vertex branch\<close>

text \<open>
  C3. After the per-vertex branch of the surface-mesh triangles marshal the uploaded index
  buffer has exactly \<open>3 * count_triangles\<close> entries, and every index in it is less than the
  number of vertices in the uploaded vertex buffer. The mesh is well formed: it has its
  positions, the halfedges of every face close to a cycle, which makes the marshal return,
  and they start and end at vertices of the mesh.
\<close>

theorem per_vertex_indices_valid:
  assumes "mesh_wellformed m" and "f_color m = None"
  shows "\<exists>m' d' n indices points.
           update_data_mesh_triangles tess cfn cvn (Some m) (Some d) = Inr (m', d', n) \<and>
           index_buffer d' = Some indices \<and> vertex_buffer d' = Some points \<and>
           int (length indices) = 3 * n \<and> (\<forall>i\<in>set indices. i < length points)"
proof -
  let ?m = "update_vertex_normals cvn m"
  from assms(1) have circ: "list_all (face_circulates ?m) (faces m)"
    and valid: "\<And>f. f \<in> set (faces m) \<Longrightarrow> face_circulates m f \<and> face_vertices_valid m f"
    and positions: "v_point_property m \<noteq> None"
    by (simp_all add: mesh_wellformed_def list_all_iff update_vertex_normals_wellformed)
  have same: "fan_indices ?m = fan_indices m"
    by (rule ext) (simp add: update_vertex_normals_wellformed)
  from fan_faces_circulate [OF circ, of "face_property_triangle_range m" "[]" 0]
  obtain tr' n where loop: "fan_faces ?m (faces m) (face_property_triangle_range m, [], 0) =
      Some (tr', concat (map (fan_indices m) (faces m)), n)"
    by (auto simp: same)
  let ?indices = "concat (map (fan_indices m) (faces m))"
  from fan_faces_length [OF loop] have len: "int (length ?indices) = 3 * n" by simp
  have inside: "\<forall>i\<in>set ?indices. i < length (v_point m)"
    using valid fan_indices_valid by fastforce
  obtain d' where call: "update_data_mesh_triangles tess cfn cvn (Some m) (Some d) =
        Inr (?m\<lparr>f_triangle_range := Some tr'\<rparr>, d', n)"
    and ib: "index_buffer d' = Some ?indices" and vb: "vertex_buffer d' = Some (v_point m)"
    by (simp add: update_data_mesh_triangles_per_vertex [OF assms(2) positions] loop
          drawable_ops split: option.splits)
  from call ib vb len inside show ?thesis by blast
qed

theorem per_vertex_indices_valid_witness:
  "mesh_wellformed house_mesh \<and> f_color house_mesh = None \<and>
   (\<exists>m' d' n indices points.
      update_data_mesh_triangles fan_tessellator (\<lambda>f. up) (\<lambda>v. up) (Some house_mesh) (Some blank)
        = Inr (m', d', n) \<and>
      index_buffer d' = Some indices \<and> vertex_buffer d' = Some points \<and>
      int (length indices) = 3 * n \<and> (\<forall>i\<in>set indices. i < length points)) \<and>
   update_data_mesh_triangles fan_tessellator (\<lambda>f. up) (\<lambda>v. up) (Some house_mesh) (Some blank)
     = Inr (house_mesh\<lparr>v_normal := Some [up, up, up, up, up],
                       f_triangle_range := Some house_ranges\<rparr>, house_indexed, 3) \<and>
   index_buffer house_indexed = Some [0, 1, 2, 0, 2, 3, 2, 1, 4] \<and>
   vertex_buffer house_indexed = Some [(0, 0, 0), (1, 0, 0), (1, 1, 0), (0, 1, 0), (2, 1, 0)]"
proof -
  have c: "f_color house_mesh = None" by (simp add: house_mesh_fields)
  have b: "index_buffer house_indexed = Some [0, 1, 2, 0, 2, 3, 2, 1, 4]"
    "vertex_buffer house_indexed = Some [(0, 0, 0), (1, 0, 0), (1, 1, 0), (0, 1, 0), (2, 1, 0)]"
    by (simp_all add: house_indexed_def)
  from per_vertex_indices_valid [OF house_mesh_wellformed c] house_mesh_wellformed c
    house_per_vertex b
  show ?thesis by (intro conjI)
qed

subsection \<open>C4: the fan triangulation\<close>

lemma quad_mesh_wellformed: "mesh_wellformed quad_mesh"
  by (simp add: mesh_wellformed_def face_circulates_def face_vertices_valid_def
        quad_mesh_fields)

lemma quad_per_vertex:
  "update_data_mesh_triangles tess cfn cvn (Some quad_mesh) (Some d) =
     Inr (quad_mesh\<lparr>v_normal := Some (map cvn [0 ..< length (v_point quad_mesh)]),
                    f_triangle_range := Some ((\<lambda>f. (0, 0))(0 := (0, 1)))\<rparr>,
          d\<lparr>vertex_buffer := Some [(0, 0, 0), (1, 0, 0), (1, 1, 0), (0, 1, 0)],
            normal_buffer := Some (map cvn [0 ..< length (v_point quad_mesh)]),
            index_buffer := Some [0, 1, 2, 0, 2, 3]\<rparr>, 2)"
  by (simp add: update_data_mesh_triangles_def update_vertex_normals_def
        face_property_triangle_range_def fan_face_def fan_triangles.simps
        quad_mesh_fields drawable_ops Let_def)

text \<open>
  C4. In the per-vertex branch the fan of a face fixes \<open>va = to_vertex(h0)\<close> for the
  face's first halfedge \<open>h0\<close> and emits the triangle
  \<open>(va, from_vertex(cur), to_vertex(cur))\<close> for every halfedge \<open>cur\<close> met when walking from
  \<open>next(next(h0))\<close> until \<open>h0\<close> is reached again: these are the halfedges of the face
  after its first two. For the mesh that is a single quad with no \<open>f:color\<close> the index
  buffer is \<open>[0,1,2, 0,2,3]\<close>, four vertices are uploaded, and the face's range is
  \<open>(0, 1)\<close>.
\<close>

theorem fan_triangulation:
  "(face_circulates m f \<longrightarrow>
      fan_face m f (tr, indices, count) =
        Some (tr(f := (count, count + int (length (drop 2 (halfedges m f))) - 1)),
              indices @ concat (map (\<lambda>cur. [to_vertex m (halfedge m f),
                                              from_vertex m cur, to_vertex m cur])
                                    (drop 2 (halfedges m f))),
              count + int (length (drop 2 (halfedges m f))))) \<and>
   (\<exists>m' d' triangle_range.
      update_data_mesh_triangles tess cfn cvn (Some quad_mesh) (Some d) = Inr (m', d', 2) \<and>
      f_color quad_mesh = None \<and> faces quad_mesh = [0] \<and> length (v_point quad_mesh) = 4 \<and>
      vertex_buffer d' = Some (v_point quad_mesh) \<and>
      index_buffer d' = Some [0, 1, 2, 0, 2, 3] \<and>
      f_triangle_range m' = Some triangle_range \<and> triangle_range 0 = (0, 1))"
proof (intro conjI impI)
  assume "face_circulates m f"
  from fan_face_circulates [OF this, of tr indices count]
  show "fan_face m f (tr, indices, count) =
        Some (tr(f := (count, count + int (length (drop 2 (halfedges m f))) - 1)),
              indices @ concat (map (\<lambda>cur. [to_vertex m (halfedge m f),
                                              from_vertex m cur, to_vertex m cur])
                                    (drop 2 (halfedges m f))),
              count + int (length (drop 2 (halfedges m f))))"
    by (simp add: fan_indices_def)
next
  show "\<exists>m' d' triangle_range.
      update_data_mesh_triangles tess cfn cvn (Some quad_mesh) (Some d) = Inr (m', d', 2) \<and>
      f_color quad_mesh = None \<and> faces quad_mesh = [0] \<and> length (v_point quad_mesh) = 4 \<and>
      vertex_buffer d' = Some (v_point quad_mesh) \<and>
      index_buffer d' = Some [0, 1, 2, 0, 2, 3] \<and>
      f_triangle_range m' = Some triangle_range \<and> triangle_range 0 = (0, 1)"
    by (simp add: quad_per_vertex quad_mesh_fields)
qed

text \<open>On the house: the quad's fan is \<open>(0,1,2), (0,2,3)\<close>, then the triangle's
  \<open>(2,1,4)\<close> follows as triangle 2.\<close>

theorem fan_triangulation_witness:
  "face_circulates house_mesh 0 \<and> face_circulates house_mesh 1 \<and>
   fan_face house_mesh 0 (\<lambda>f. (0, 0), [], 0) =
     Some ((\<lambda>f. (0, 0))(0 := (0, 1)), [0, 1, 2, 0, 2, 3], 2) \<and>
   fan_face house_mesh 1 ((\<lambda>f. (0, 0))(0 := (0, 1)), [0, 1, 2, 0, 2, 3], 2) =
     Some ((\<lambda>f. (0, 0))(0 := (0, 1), 1 := (2, 2)), [0, 1, 2, 0, 2, 3, 2, 1, 4], 3)"
proof -
  have c: "face_circulates house_mesh 0" "face_circulates house_mesh 1"
    by (simp_all add: face_circulates_def house_mesh_fields)
  have "fan_face house_mesh 0 (\<lambda>f. (0, 0), [], 0) =
     Some ((\<lambda>f. (0, 0))(0 := (0, 1)), [0, 1, 2, 0, 2, 3], 2)"
    using fan_triangulation [of house_mesh 0 "\<lambda>f. (0, 0)" "[]" 0, THEN conjunct1, rule_format, OF c(1)]
    by (simp add: house_mesh_fields)
  moreover have "fan_face house_mesh 1 ((\<lambda>f. (0, 0))(0 := (0, 1)), [0, 1, 2, 0, 2, 3], 2) =
     Some ((\<lambda>f. (0, 0))(0 := (0, 1), 1 := (2, 2)), [0, 1, 2, 0, 2, 3, 2, 1, 4], 3)"
    using fan_triangulation [of house_mesh 1 "(\<lambda>f. (0, 0))(0 := (0, 1))" "[0, 1, 2, 0, 2, 3]" 2,
        THEN conjunct1, rule_format, OF c(2)]
    by (simp add: house_mesh_fields)
  ultimately show ?thesis using c by (intro conjI)
qed

subsection \<open>C8: faces without triangles\<close>

lemma fan_triangles_none:
  assumes "fan_triangles m start va cur indices num = Some (indices', num)"
  shows "indices' = indices"
proof (cases "cur = start")
  case True
  with assms show ?thesis by (simp add: fan_triangles.simps)
next
  case False
  with assms have "fan_triangles m start va (next_halfedge m cur)
      (indices @ [va, from_vertex m cur, to_vertex m cur]) (num + 1) = Some (indices', num)"
    by (subst (asm) fan_triangles.simps) simp
  from fan_triangles_result [OF this] show ?thesis by simp
qed

text \<open>
  C8. In a surface-mesh triangles marshal a face that yields zero triangles adds nothing to
  the output streams, gets the range \<open>(count_triangles, count_triangles - 1)\<close>, and leaves
  \<open>count_triangles\<close> as it was. In the per-vertex branch these are the faces whose fan
  loop counts zero, among them every face with fewer than three halfedges; in the
  per-face-colour branch they are the faces for which the tessellator reports no triangle.
\<close>

theorem empty_face_range:
  "(face_circulates m f \<and> length (halfedges m f) < 3 \<longrightarrow>
      fan_face m f (tr, indices, count) = Some (tr(f := (count, count - 1)), indices, count)) \<and>
   (fan_triangles m (halfedge m f) (to_vertex m (halfedge m f))
        (next_halfedge m (next_halfedge m (halfedge m f))) indices 0 = Some (indices', 0) \<longrightarrow>
      fan_face m f (tr, indices, count) = Some (tr(f := (count, count - 1)), indices, count)) \<and>
   (face_contour m normals (halfedges m f) [] = Inr contour \<and>
    snd (tess (cfn f) contour) = [] \<longrightarrow>
      tessellate_face tess cfn m normals fc f (tr, ps, ns, cs, count) =
        Inr (tr(f := (count, count - 1)), ps, ns, cs, count))"
proof (intro conjI impI)
  assume a: "face_circulates m f \<and> length (halfedges m f) < 3"
  then have "length (halfedges m f) - 2 = 0" by simp
  with fan_face_circulates [of m f tr indices count] a
  show "fan_face m f (tr, indices, count) = Some (tr(f := (count, count - 1)), indices, count)"
    by (simp add: fan_indices_def)
next
  assume a: "fan_triangles m (halfedge m f) (to_vertex m (halfedge m f))
        (next_halfedge m (next_halfedge m (halfedge m f))) indices 0 = Some (indices', 0)"
  from fan_triangles_none [OF a] a
  show "fan_face m f (tr, indices, count) = Some (tr(f := (count, count - 1)), indices, count)"
    by (simp add: fan_face_def)
next
  assume a: "face_contour m normals (halfedges m f) [] = Inr contour \<and>
    snd (tess (cfn f) contour) = []"
  then show "tessellate_face tess cfn m normals fc f (tr, ps, ns, cs, count) =
        Inr (tr(f := (count, count - 1)), ps, ns, cs, count)"
    by (cases "tess (cfn f) contour") (simp add: tessellate_face_def)
qed

text \<open>The digon after a face that took the triangles 0 to 4.\<close>

theorem empty_face_range_witness:
  "face_circulates digon_mesh 0 \<and> length (halfedges digon_mesh 0) < 3 \<and>
   fan_triangles digon_mesh (halfedge digon_mesh 0) (to_vertex digon_mesh (halfedge digon_mesh 0))
     (next_halfedge digon_mesh (next_halfedge digon_mesh (halfedge digon_mesh 0))) [7, 8, 9] 0 =
     Some ([7, 8, 9], 0) \<and>
   fan_face digon_mesh 0 (\<lambda>f. (0, 0), [7, 8, 9], 5) =
     Some ((\<lambda>f. (0, 0))(0 := (5, 4)), [7, 8, 9], 5) \<and>
   face_contour digon_mesh [up, up] (halfedges digon_mesh 0) [] =
     Inr [((0, 0, 0), up), ((1, 0, 0), up)] \<and>
   snd (fan_tessellator up [((0, 0, 0), up), ((1, 0, 0), up)]) = [] \<and>
   tessellate_face fan_tessellator (\<lambda>f. up) digon_mesh [up, up] (\<lambda>f. red) 0
       (\<lambda>f. (0, 0), [east], [up], [red], 5) =
     Inr ((\<lambda>f. (0, 0))(0 := (5, 4)), [east], [up], [red], 5)"
proof -
  have c: "face_circulates digon_mesh 0 \<and> length (halfedges digon_mesh 0) < 3"
    by (simp add: face_circulates_def digon_mesh_fields)
  have l: "fan_triangles digon_mesh (halfedge digon_mesh 0)
     (to_vertex digon_mesh (halfedge digon_mesh 0))
     (next_halfedge digon_mesh (next_halfedge digon_mesh (halfedge digon_mesh 0))) [7, 8, 9] 0 =
     Some ([7, 8, 9], 0)"
    by (simp add: fan_triangles.simps digon_mesh_fields)
  have t: "face_contour digon_mesh [up, up] (halfedges digon_mesh 0) [] =
     Inr [((0, 0, 0), up), ((1, 0, 0), up)] \<and>
   snd (fan_tessellator up [((0, 0, 0), up), ((1, 0, 0), up)]) = []"
    by (simp add: digon_mesh_fields fan_tessellator_def)
  note e = empty_face_range [of digon_mesh 0 "\<lambda>f. (0, 0)" "[7, 8, 9]" 5 "[7, 8, 9]"
      "[up, up]" "[((0, 0, 0), up), ((1, 0, 0), up)]" fan_tessellator "\<lambda>f. up"
      "\<lambda>f. red" "[east]" "[up]" "[red]"]
  from e [THEN conjunct1, rule_format, OF c]
    e [THEN conjunct2, THEN conjunct1, rule_format, OF l]
    e [THEN conjunct2, THEN conjunct2, rule_format, OF t] c l t
  show ?thesis by simp
qed

subsection \<open>C10: the per-vertex-colour flag without vertex colours\<close>

lemma plain_cloud_marshal:
  "update_data_cloud_points cfg rc seed (Some plain_cloud) (Some d) =
     Inr (d\<lparr>vertex_buffer := Some [(0, 0, 0), (1, 0, 0), (0, 1, 0)],
            default_color := point_cloud_points_color cfg,
            per_vertex_color := False\<rparr>, seed)"
  by (simp add: update_data_cloud_points_def plain_cloud_def drawable_ops)

text \<open>
  C10. In the per-vertex branch of the surface-mesh triangles marshal, when the mesh has no
  \<open>v:color\<close>, the drawable's per-vertex-colour flag is not written: after the call it has
  the value it had before. The point-cloud marshal, in its fallback without segmentation
  and without \<open>v:color\<close>, sets the flag to false.
\<close>

theorem per_vertex_color_flag_kept:
  "(f_color m = None \<and> v_color m = None \<and>
    update_data_mesh_triangles tess cfn cvn (Some m) (Some d) = Inr (m', d', n) \<longrightarrow>
      per_vertex_color d' = per_vertex_color d) \<and>
   ((v_primitive_type pc = None \<or> v_primitive_index pc = None) \<and> cloud_color pc = None \<and>
    update_data_cloud_points cfg rc seed (Some pc) (Some pd) = Inr (pd', seed') \<longrightarrow>
      per_vertex_color pd' = False)"
proof (intro conjI impI)
  assume a: "f_color m = None \<and> v_color m = None \<and>
    update_data_mesh_triangles tess cfn cvn (Some m) (Some d) = Inr (m', d', n)"
  then have call: "update_data_mesh_triangles tess cfn cvn (Some m) (Some d) = Inr (m', d', n)"
    and c: "v_color m = None" and f: "f_color m = None" by simp_all
  note p = update_data_mesh_triangles_needs_points [OF f call]
  from call c show "per_vertex_color d' = per_vertex_color d"
    by (auto simp: update_data_mesh_triangles_per_vertex [OF f p] drawable_ops
             split: option.splits)
next
  assume a: "(v_primitive_type pc = None \<or> v_primitive_index pc = None) \<and>
    cloud_color pc = None \<and>
    update_data_cloud_points cfg rc seed (Some pc) (Some pd) = Inr (pd', seed')"
  then show "per_vertex_color pd' = False"
    by (auto simp: update_data_cloud_points_def drawable_ops Let_def split: option.splits)
qed

text \<open>A drawable whose flag is on keeps it on through the mesh marshal and loses it in the
  point-cloud marshal.\<close>

theorem per_vertex_color_flag_kept_witness:
  "f_color house_mesh = None \<and> v_color house_mesh = None \<and>
   update_data_mesh_triangles fan_tessellator (\<lambda>f. up) (\<lambda>v. up) (Some house_mesh)
       (Some (blank\<lparr>per_vertex_color := True\<rparr>)) =
     Inr (house_mesh\<lparr>v_normal := Some [up, up, up, up, up],
                     f_triangle_range := Some house_ranges\<rparr>,
          blank\<lparr>per_vertex_color := True,
                vertex_buffer := Some [(0, 0, 0), (1, 0, 0), (1, 1, 0), (0, 1, 0), (2, 1, 0)],
                normal_buffer := Some [up, up, up, up, up],
                index_buffer := Some [0, 1, 2, 0, 2, 3, 2, 1, 4]\<rparr>, 3) \<and>
   per_vertex_color
     (blank\<lparr>per_vertex_color := True,
            vertex_buffer := Some [(0, 0, 0), (1, 0, 0), (1, 1, 0), (0, 1, 0), (2, 1, 0)],
            normal_buffer := Some [up, up, up, up, up],
            index_buffer := Some [0, 1, 2, 0, 2, 3, 2, 1, 4]\<rparr>) =
     per_vertex_color (blank\<lparr>per_vertex_color := True\<rparr>) \<and>
   per_vertex_color (blank\<lparr>per_vertex_color := True\<rparr>) = True \<and>
   v_primitive_type plain_cloud = None \<and> cloud_color plain_cloud = None \<and>
   per_vertex_color blank_points = True \<and>
   update_data_cloud_points some_setting counting_color 0 (Some plain_cloud) (Some blank_points) =
     Inr (blank_points\<lparr>vertex_buffer := Some [(0, 0, 0), (1, 0, 0), (0, 1, 0)],
                       default_color := point_cloud_points_color some_setting,
                       per_vertex_color := False\<rparr>, 0) \<and>
   per_vertex_color
     (blank_points\<lparr>vertex_buffer := Some [(0, 0, 0), (1, 0, 0), (0, 1, 0)],
                   default_color := point_cloud_points_color some_setting,
                   per_vertex_color := False\<rparr>) = False"
proof -
  let ?d = "blank\<lparr>per_vertex_color := True\<rparr>"
  have m: "f_color house_mesh = None \<and> v_color house_mesh = None \<and>
    update_data_mesh_triangles fan_tessellator (\<lambda>f. up) (\<lambda>v. up) (Some house_mesh) (Some ?d) =
     Inr (house_mesh\<lparr>v_normal := Some [up, up, up, up, up],
                     f_triangle_range := Some house_ranges\<rparr>,
          ?d\<lparr>vertex_buffer := Some [(0, 0, 0), (1, 0, 0), (1, 1, 0), (0, 1, 0), (2, 1, 0)],
             normal_buffer := Some [up, up, up, up, up],
             index_buffer := Some [0, 1, 2, 0, 2, 3, 2, 1, 4]\<rparr>, 3)"
    by (simp add: house_mesh_fields house_per_vertex_drawable)
  have p: "(v_primitive_type plain_cloud = None \<or> v_primitive_index plain_cloud = None) \<and>
    cloud_color plain_cloud = None \<and>
    update_data_cloud_points some_setting counting_color 0 (Some plain_cloud) (Some blank_points) =
     Inr (blank_points\<lparr>vertex_buffer := Some [(0, 0, 0), (1, 0, 0), (0, 1, 0)],
                       default_color := point_cloud_points_color some_setting,
                       per_vertex_color := False\<rparr>, 0)"
    by (simp add: plain_cloud_marshal) (simp add: plain_cloud_def)
  have b: "per_vertex_color ?d = True" "per_vertex_color blank_points = True"
    "v_primitive_type plain_cloud = None"
    by (simp_all add: blank_points_def plain_cloud_def)
  from per_vertex_color_flag_kept [THEN conjunct1, rule_format, OF m]
    per_vertex_color_flag_kept [THEN conjunct2, rule_format, OF p] m p b
  show ?thesis by simp
qed

subsection \<open>The marshal reads connectivity and positions only\<close>

lemma fan_triangles_Some_cong:
  assumes h: "fan_triangles m start va cur indices num = Some y"
    and same: "next_halfedge m = next_halfedge m2" "from_vertex m = from_vertex m2"
      "to_vertex m = to_vertex m2"
  shows "fan_triangles m2 start va cur indices num = Some y"
proof -
  have "next_halfedge m = next_halfedge m2 \<and> from_vertex m = from_vertex m2 \<and>
        to_vertex m = to_vertex m2 \<longrightarrow> fan_triangles m2 start va cur indices num = Some y"
  proof (rule fan_triangles.raw_induct
      [where P = "\<lambda>m start va cur indices num y.
         next_halfedge m = next_halfedge m2 \<and> from_vertex m = from_vertex m2 \<and>
         to_vertex m = to_vertex m2 \<longrightarrow> fan_triangles m2 start va cur indices num = Some y",
       OF _ h])
    fix fan m start va cur indices num y
    assume IH: "\<And>m start va cur indices num y. fan m start va cur indices num = Some y \<Longrightarrow>
        next_halfedge m = next_halfedge m2 \<and> from_vertex m = from_vertex m2 \<and>
        to_vertex m = to_vertex m2 \<longrightarrow> fan_triangles m2 start va cur indices num = Some y"
      and step: "(if cur \<noteq> start
        then fan m start va (next_halfedge m cur)
              (indices @ [va, from_vertex m cur, to_vertex m cur]) (num + 1)
        else Some (indices, num)) = Some y"
    show "next_halfedge m = next_halfedge m2 \<and> from_vertex m = from_vertex m2 \<and>
        to_vertex m = to_vertex m2 \<longrightarrow> fan_triangles m2 start va cur indices num = Some y"
    proof
      assume s: "next_halfedge m = next_halfedge m2 \<and> from_vertex m = from_vertex m2 \<and>
        to_vertex m = to_vertex m2"
      show "fan_triangles m2 start va cur indices num = Some y"
      proof (cases "cur = start")
        case True
        with step show ?thesis by (simp add: fan_triangles.simps)
      next
        case False
        with step have "fan m start va (next_halfedge m cur)
              (indices @ [va, from_vertex m cur, to_vertex m cur]) (num + 1) = Some y" by simp
        from IH [OF this] s have "fan_triangles m2 start va (next_halfedge m2 cur)
              (indices @ [va, from_vertex m2 cur, to_vertex m2 cur]) (num + 1) = Some y" by simp
        with False show ?thesis by (subst fan_triangles.simps) simp
      qed
    qed
  qed
  with same show ?thesis by simp
qed

lemma fan_triangles_cong:
  assumes "next_halfedge m = next_halfedge m2" "from_vertex m = from_vertex m2"
    "to_vertex m = to_vertex m2"
  shows "fan_triangles m start va cur indices num = fan_triangles m2 start va cur indices num"
proof (cases "fan_triangles m start va cur indices num")
  case (Some y)
  with fan_triangles_Some_cong [OF Some assms] show ?thesis by simp
next
  case None
  show ?thesis
  proof (cases "fan_triangles m2 start va cur indices num")
    case (Some y)
    from fan_triangles_Some_cong [OF Some assms [symmetric]] None show ?thesis by simp
  next
    case None': None
    with None show ?thesis by simp
  qed
qed

lemma fan_faces_cong:
  assumes "halfedge m = halfedge m2" "next_halfedge m = next_halfedge m2"
    "from_vertex m = from_vertex m2" "to_vertex m = to_vertex m2"
  shows "fan_faces m fs st = fan_faces m2 fs st"
proof (induction fs arbitrary: st)
  case Nil
  show ?case by simp
next
  case (Cons f fs)
  have "fan_face m f st = fan_face m2 f st"
    by (simp add: fan_face_def assms(1) fan_triangles_cong [OF assms(2-4)] assms(2,4)
          split: prod.splits)
  with Cons.IH show ?case by (simp split: option.splits)
qed

lemma face_contour_cong:
  assumes "to_vertex m = to_vertex m2" "v_point_property m = v_point_property m2"
  shows "face_contour m normals hs contour = face_contour m2 normals hs contour"
  by (induction hs arbitrary: contour) (simp_all add: assms Let_def split: option.splits)

lemma tessellate_faces_cong:
  assumes "halfedges m = halfedges m2" "to_vertex m = to_vertex m2"
    "v_point_property m = v_point_property m2"
  shows "tessellate_faces tess cfn m normals fc fs st =
         tessellate_faces tess cfn m2 normals fc fs st"
proof (induction fs arbitrary: st)
  case Nil
  show ?case by simp
next
  case (Cons f fs)
  have "tessellate_face tess cfn m normals fc f st = tessellate_face tess cfn m2 normals fc f st"
    by (simp add: tessellate_face_def assms(1) face_contour_cong [OF assms(2,3)])
  with Cons.IH show ?case by (simp split: sum.splits)
qed

subsection \<open>The ranges written do not depend on the ranges found\<close>

lemma fan_face_frame:
  assumes "fan_face m f (tr, indices, c) = Some (tr1, indices1, c1)"
  shows "tr1 = tr(f := tr1 f) \<and>
         fan_face m f (tr2, indices, c) = Some (tr2(f := tr1 f), indices1, c1)"
  using assms by (auto simp: fan_face_def Let_def split: option.splits)

lemma fan_faces_untouched:
  assumes "fan_faces m fs (tr, indices, c) = Some (tr', indices', c')" and "g \<notin> set fs"
  shows "tr' g = tr g"
  using assms
proof (induction fs arbitrary: tr indices c)
  case Nil
  then show ?case by simp
next
  case (Cons f fs)
  from Cons.prems(1) obtain tr1 indices1 c1 where
    s1: "fan_face m f (tr, indices, c) = Some (tr1, indices1, c1)"
    and r: "fan_faces m fs (tr1, indices1, c1) = Some (tr', indices', c')"
    by (auto split: option.splits)
  from fan_face_frame [OF s1] have "tr1 = tr(f := tr1 f)" by simp
  with Cons.prems(2) have "tr1 g = tr g" by (metis fun_upd_other list.set_intros(1))
  with Cons.IH [OF r] Cons.prems(2) show ?case by simp
qed

lemma fan_faces_frame:
  assumes "fan_faces m fs (tr, indices, c) = Some (tr', indices', c')"
  shows "fan_faces m fs (tr2, indices, c) =
           Some (\<lambda>f. if f \<in> set fs then tr' f else tr2 f, indices', c')"
  using assms
proof (induction fs arbitrary: tr tr2 indices c)
  case Nil
  then show ?case by simp
next
  case (Cons f fs)
  from Cons.prems(1) obtain tr1 indices1 c1 where
    s1: "fan_face m f (tr, indices, c) = Some (tr1, indices1, c1)"
    and r: "fan_faces m fs (tr1, indices1, c1) = Some (tr', indices', c')"
    by (auto split: option.splits)
  from fan_face_frame [OF s1, of tr2] have
    s2: "fan_face m f (tr2, indices, c) = Some (tr2(f := tr1 f), indices1, c1)" by simp
  have "(\<lambda>g. if g \<in> set fs then tr' g else (tr2(f := tr1 f)) g) =
        (\<lambda>g. if g \<in> set (f # fs) then tr' g else tr2 g)"
  proof
    fix g
    show "(if g \<in> set fs then tr' g else (tr2(f := tr1 f)) g) =
          (if g \<in> set (f # fs) then tr' g else tr2 g)"
      using fan_faces_untouched [OF r, of g] by auto
  qed
  with Cons.IH [OF r, of "tr2(f := tr1 f)"]
  have "fan_faces m fs (tr2(f := tr1 f), indices1, c1) =
          Some (\<lambda>g. if g \<in> set (f # fs) then tr' g else tr2 g, indices', c')"
    by (simp only:)
  then show ?case
    unfolding fan_faces.simps s2 option.case .
qed

lemma tessellate_face_frame:
  assumes "tessellate_face tess cfn m normals fc f (tr, ps, ns, cs, c) = Inr (tr1, ps1, ns1, cs1, c1)"
  shows "tr1 = tr(f := tr1 f) \<and>
         tessellate_face tess cfn m normals fc f (tr2, ps, ns, cs, c) =
           Inr (tr2(f := tr1 f), ps1, ns1, cs1, c1)"
  using assms by (auto simp: tessellate_face_def Let_def split: sum.splits prod.splits)

lemma tessellate_faces_untouched:
  assumes "tessellate_faces tess cfn m normals fc fs (tr, ps, ns, cs, c) = Inr (tr', ps', ns', cs', c')"
    and "g \<notin> set fs"
  shows "tr' g = tr g"
  using assms
proof (induction fs arbitrary: tr ps ns cs c)
  case Nil
  then show ?case by simp
next
  case (Cons f fs)
  from Cons.prems(1) obtain tr1 ps1 ns1 cs1 c1 where
    s1: "tessellate_face tess cfn m normals fc f (tr, ps, ns, cs, c) = Inr (tr1, ps1, ns1, cs1, c1)"
    and r: "tessellate_faces tess cfn m normals fc fs (tr1, ps1, ns1, cs1, c1) =
              Inr (tr', ps', ns', cs', c')"
    by (auto split: sum.splits)
  from tessellate_face_frame [OF s1] have "tr1 = tr(f := tr1 f)" by simp
  with Cons.prems(2) have "tr1 g = tr g" by (metis fun_upd_other list.set_intros(1))
  with Cons.IH [OF r] Cons.prems(2) show ?case by simp
qed

lemma tessellate_faces_frame:
  assumes "tessellate_faces tess cfn m normals fc fs (tr, ps, ns, cs, c) = Inr (tr', ps', ns', cs', c')"
  shows "tessellate_faces tess cfn m normals fc fs (tr2, ps, ns, cs, c) =
           Inr (\<lambda>f. if f \<in> set fs then tr' f else tr2 f, ps', ns', cs', c')"
  using assms
proof (induction fs arbitrary: tr tr2 ps ns cs c)
  case Nil
  then show ?case by simp
next
  case (Cons f fs)
  from Cons.prems(1) obtain tr1 ps1 ns1 cs1 c1 where
    s1: "tessellate_face tess cfn m normals fc f (tr, ps, ns, cs, c) = Inr (tr1, ps1, ns1, cs1, c1)"
    and r: "tessellate_faces tess cfn m normals fc fs (tr1, ps1, ns1, cs1, c1) =
              Inr (tr', ps', ns', cs', c')"
    by (auto split: sum.splits)
  from tessellate_face_frame [OF s1, of tr2] have
    s2: "tessellate_face tess cfn m normals fc f (tr2, ps, ns, cs, c) =
           Inr (tr2(f := tr1 f), ps1, ns1, cs1, c1)" by simp
  have "(\<lambda>g. if g \<in> set fs then tr' g else (tr2(f := tr1 f)) g) =
        (\<lambda>g. if g \<in> set (f # fs) then tr' g else tr2 g)"
  proof
    fix g
    show "(if g \<in> set fs then tr' g else (tr2(f := tr1 f)) g) =
          (if g \<in> set (f # fs) then tr' g else tr2 g)"
      using tessellate_faces_untouched [OF r, of g] by auto
  qed
  with Cons.IH [OF r, of "tr2(f := tr1 f)"]
  have "tessellate_faces tess cfn m normals fc fs (tr2(f := tr1 f), ps1, ns1, cs1, c1) =
          Inr (\<lambda>g. if g \<in> set (f # fs) then tr' g else tr2 g, ps', ns', cs', c')"
    by (simp only:)
  then show ?case
    unfolding tessellate_faces.simps s2 sum.case .
qed

subsection \<open>C9: marshalling twice\<close>

lemma update_data_mesh_triangles_per_face:
  assumes "f_color m = Some fc"
  shows "update_data_mesh_triangles tess cfn cvn (Some m) (Some d) =
     (case tessellate_faces tess cfn (update_vertex_normals cvn m)
             (map cvn [0 ..< length (v_point m)]) fc (faces m)
             (face_property_triangle_range m, [], [], [], 0) of
        Inl e \<Rightarrow> Inl e
      | Inr (tr', ps, ns, cs, n) \<Rightarrow>
          Inr ((update_vertex_normals cvn m)\<lparr>f_triangle_range := Some tr'\<rparr>,
               release_element_buffer (set_per_vertex_color True
                 (update_color_buffer cs (update_normal_buffer ns (update_vertex_buffer ps d)))),
               n))"
  using assms
  by (simp add: update_data_mesh_triangles_def update_vertex_normals_fields Let_def
        property_array_def split: sum.splits)

lemma marshalled_mesh_fields:
  assumes "m1 = (update_vertex_normals cvn m)\<lparr>f_triangle_range := Some tr'\<rparr>"
  shows "update_vertex_normals cvn m1 = m1"
    and "face_property_triangle_range m1 = tr'"
    and "faces m1 = faces m" and "f_color m1 = f_color m" and "v_point m1 = v_point m"
    and "v_point_property m1 = v_point_property m"
    and "v_color m1 = v_color m" and "v_texcoord m1 = v_texcoord m"
    and "m1\<lparr>f_triangle_range := Some tr'\<rparr> = m1"
  by (simp_all add: assms update_vertex_normals_def face_property_triangle_range_def)

lemma update_data_mesh_triangles_idempotent:
  assumes "update_data_mesh_triangles tess cfn cvn (Some m) (Some d) = Inr (m1, d1, n)"
  shows "update_data_mesh_triangles tess cfn cvn (Some m1) (Some d1) = Inr (m1, d1, n)"
proof (cases "f_color m")
  case None
  let ?m = "update_vertex_normals cvn m"
  note p = update_data_mesh_triangles_needs_points [OF None assms]
  from assms obtain tr' indices where
    loop: "fan_faces ?m (faces m) (face_property_triangle_range m, [], 0) = Some (tr', indices, n)"
    and m1: "m1 = ?m\<lparr>f_triangle_range := Some tr'\<rparr>"
    and d1: "d1 = update_index_buffer indices
                 (update_normal_buffer (map cvn [0 ..< length (v_point m)])
                   (case v_texcoord m of
                      Some ts \<Rightarrow> update_texcoord_buffer ts
                        (case v_color m of
                           Some cs \<Rightarrow> set_per_vertex_color True
                             (update_color_buffer cs (update_vertex_buffer (v_point m) d))
                         | None \<Rightarrow> update_vertex_buffer (v_point m) d)
                    | None \<Rightarrow>
                        (case v_color m of
                           Some cs \<Rightarrow> set_per_vertex_color True
                             (update_color_buffer cs (update_vertex_buffer (v_point m) d))
                         | None \<Rightarrow> update_vertex_buffer (v_point m) d)))"
    by (auto simp: update_data_mesh_triangles_per_vertex [OF None p] split: option.splits)
  note f = marshalled_mesh_fields [OF m1]
  have c: "f_color m1 = None" by (simp add: f None)
  have p1: "v_point_property m1 \<noteq> None" by (simp add: f p)
  have "fan_faces m1 (faces m) (tr', [], 0) = fan_faces ?m (faces m) (tr', [], 0)"
    by (rule fan_faces_cong) (simp_all add: m1)
  also from fan_faces_frame [OF loop, of tr'] have "\<dots> = Some (tr', indices, n)" by simp
  finally have loop1: "fan_faces m1 (faces m) (tr', [], 0) = Some (tr', indices, n)" .
  show ?thesis
    by (cases "v_texcoord m"; cases "v_color m")
       (simp_all add: update_data_mesh_triangles_per_vertex [OF c p1] f loop1 d1 drawable_ops)
next
  case (Some fc)
  let ?m = "update_vertex_normals cvn m"
  let ?normals = "map cvn [0 ..< length (v_point m)]"
  from assms obtain tr' ps ns cs where
    loop: "tessellate_faces tess cfn ?m ?normals fc (faces m)
             (face_property_triangle_range m, [], [], [], 0) = Inr (tr', ps, ns, cs, n)"
    and m1: "m1 = ?m\<lparr>f_triangle_range := Some tr'\<rparr>"
    and d1: "d1 = release_element_buffer (set_per_vertex_color True
               (update_color_buffer cs (update_normal_buffer ns (update_vertex_buffer ps d))))"
    by (auto simp: update_data_mesh_triangles_per_face [OF Some] split: sum.splits)
  note f = marshalled_mesh_fields [OF m1]
  have c: "f_color m1 = Some fc" by (simp add: f Some)
  have "tessellate_faces tess cfn m1 ?normals fc (faces m) (tr', [], [], [], 0) =
        tessellate_faces tess cfn ?m ?normals fc (faces m) (tr', [], [], [], 0)"
    by (rule tessellate_faces_cong) (simp_all add: m1)
  also from tessellate_faces_frame [OF loop, of tr'] have "\<dots> = Inr (tr', ps, ns, cs, n)"
    by simp
  finally have loop1: "tessellate_faces tess cfn m1 ?normals fc (faces m) (tr', [], [], [], 0) =
      Inr (tr', ps, ns, cs, n)" .
  have again: "release_element_buffer (set_per_vertex_color True
               (update_color_buffer cs (update_normal_buffer ns (update_vertex_buffer ps d1)))) = d1"
    by (simp add: d1 drawable_ops)
  show ?thesis
    by (simp add: update_data_mesh_triangles_per_face [OF c] f loop1 again)
qed

lemma update_data_cloud_points_idempotent:
  assumes "update_data_cloud_points cfg rc seed (Some pc) (Some d) = Inr (d1, seed1)"
  shows "update_data_cloud_points cfg rc seed (Some pc) (Some d1) = Inr (d1, seed1)"
proof (cases "v_primitive_type pc")
  case None
  with assms show ?thesis
    by (cases "cloud_normal pc"; cases "cloud_color pc"; cases "cloud_point_property pc")
       (auto simp: update_data_cloud_points_def drawable_ops Let_def)
next
  case t: (Some primitive_type)
  show ?thesis
  proof (cases "v_primitive_index pc")
    case None
    with assms t show ?thesis
      by (cases "cloud_normal pc"; cases "cloud_color pc"; cases "cloud_point_property pc")
         (auto simp: update_data_cloud_points_def drawable_ops Let_def)
  next
    case (Some primitive_index)
    with assms t show ?thesis
      by (cases "cloud_normal pc"; cases "cloud_point_property pc")
         (auto simp: update_data_cloud_points_def drawable_ops Let_def
               split: prod.splits sum.splits)
  qed
qed

lemma example_marshals:
  "update_data_cloud_points some_setting counting_color 0 (Some segmented_cloud)
     (Some blank_points) = Inr (segmented_points, 2)"
  "update_data_mesh_points some_setting (Some house_mesh) (Some blank_points) = Inr house_points"
  "update_data_mesh_lines some_setting (Some house_mesh) (Some blank_lines) = Inr house_lines"
  "update_data_graph_points (Some path_graph) (Some blank_points) = Inr path_points"
  "update_data_graph_lines (Some path_graph) (Some blank_lines) = Inr path_lines"
proof -
  show "update_data_cloud_points some_setting counting_color 0 (Some segmented_cloud)
     (Some blank_points) = Inr (segmented_points, 2)"
    by (simp add: update_data_cloud_points_def segmented_cloud_def count_primitives_def
          counting_color_def blank_points_def segmented_points_def drawable_ops Let_def
          numeral_2_eq_2)
  show "update_data_mesh_points some_setting (Some house_mesh) (Some blank_points) = Inr house_points"
    by (simp add: update_data_mesh_points_def house_mesh_fields some_setting_def
          blank_points_def house_points_def drawable_ops)
  show "update_data_mesh_lines some_setting (Some house_mesh) (Some blank_lines) = Inr house_lines"
    by (simp add: update_data_mesh_lines_def house_mesh_fields some_setting_def
          blank_lines_def house_lines_def drawable_ops)
  show "update_data_graph_points (Some path_graph) (Some blank_points) = Inr path_points"
    by (simp add: update_data_graph_points_def path_graph_def
          blank_points_def path_points_def drawable_ops)
  show "update_data_graph_lines (Some path_graph) (Some blank_lines) = Inr path_lines"
    by (simp add: update_data_graph_lines_def path_graph_def
          blank_lines_def path_lines_def drawable_ops)
qed

text \<open>
  C9. Every marshaller is idempotent: a second call of the same overload on the model and
  the drawable as the first call left them returns the same drawable, and for the triangles
  overload the same model with the same \<open>f:triangle_range\<close> and the same count. For the
  point cloud both calls start from the same state of the random colour source.
\<close>

theorem marshallers_idempotent:
  "(update_data_cloud_points cfg random_color seed (Some cloud) (Some pd) = Inr (pd1, seed1) \<longrightarrow>
      update_data_cloud_points cfg random_color seed (Some cloud) (Some pd1) = Inr (pd1, seed1)) \<and>
   (update_data_mesh_points cfg (Some mesh) (Some pd) = Inr pd2 \<longrightarrow>
      update_data_mesh_points cfg (Some mesh) (Some pd2) = Inr pd2) \<and>
   (update_data_mesh_lines cfg (Some mesh) (Some ld) = Inr ld1 \<longrightarrow>
      update_data_mesh_lines cfg (Some mesh) (Some ld1) = Inr ld1) \<and>
   (update_data_mesh_triangles tess cfn cvn (Some mesh) (Some td) = Inr (mesh1, td1, n) \<longrightarrow>
      update_data_mesh_triangles tess cfn cvn (Some mesh1) (Some td1) = Inr (mesh1, td1, n)) \<and>
   (update_data_graph_points (Some g) (Some pd) = Inr pd3 \<longrightarrow>
      update_data_graph_points (Some g) (Some pd3) = Inr pd3) \<and>
   (update_data_graph_lines (Some g) (Some ld) = Inr ld2 \<longrightarrow>
      update_data_graph_lines (Some g) (Some ld2) = Inr ld2)"
proof (intro conjI impI)
  assume "update_data_cloud_points cfg random_color seed (Some cloud) (Some pd) = Inr (pd1, seed1)"
  then show "update_data_cloud_points cfg random_color seed (Some cloud) (Some pd1) = Inr (pd1, seed1)"
    by (rule update_data_cloud_points_idempotent)
next
  assume "update_data_mesh_points cfg (Some mesh) (Some pd) = Inr pd2"
  then show "update_data_mesh_points cfg (Some mesh) (Some pd2) = Inr pd2"
    by (auto simp: update_data_mesh_points_def drawable_ops split: option.splits)
next
  assume "update_data_mesh_lines cfg (Some mesh) (Some ld) = Inr ld1"
  then show "update_data_mesh_lines cfg (Some mesh) (Some ld1) = Inr ld1"
    by (auto simp: update_data_mesh_lines_def drawable_ops Let_def split: option.splits)
next
  assume "update_data_mesh_triangles tess cfn cvn (Some mesh) (Some td) = Inr (mesh1, td1, n)"
  then show "update_data_mesh_triangles tess cfn cvn (Some mesh1) (Some td1) = Inr (mesh1, td1, n)"
    by (rule update_data_mesh_triangles_idempotent)
next
  assume "update_data_graph_points (Some g) (Some pd) = Inr pd3"
  then show "update_data_graph_points (Some g) (Some pd3) = Inr pd3"
    by (auto simp: update_data_graph_points_def drawable_ops split: option.splits)
next
  assume "update_data_graph_lines (Some g) (Some ld) = Inr ld2"
  then show "update_data_graph_lines (Some g) (Some ld2) = Inr ld2"
    by (auto simp: update_data_graph_lines_def drawable_ops Let_def split: option.splits)
qed

theorem marshallers_idempotent_witness:
  "update_data_cloud_points some_setting counting_color 0 (Some segmented_cloud)
     (Some blank_points) = Inr (segmented_points, 2) \<and>
   update_data_cloud_points some_setting counting_color 0 (Some segmented_cloud)
     (Some segmented_points) = Inr (segmented_points, 2) \<and>
   update_data_mesh_points some_setting (Some house_mesh) (Some blank_points) = Inr house_points \<and>
   update_data_mesh_points some_setting (Some house_mesh) (Some house_points) = Inr house_points \<and>
   update_data_mesh_lines some_setting (Some house_mesh) (Some blank_lines) = Inr house_lines \<and>
   update_data_mesh_lines some_setting (Some house_mesh) (Some house_lines) = Inr house_lines \<and>
   update_data_mesh_triangles fan_tessellator (\<lambda>f. up) (\<lambda>v. up) (Some colored_house) (Some blank) =
     Inr (colored_house\<lparr>v_normal := Some [up, up, up, up, up],
                        f_triangle_range := Some house_ranges\<rparr>, house_flat, 3) \<and>
   update_data_mesh_triangles fan_tessellator (\<lambda>f. up) (\<lambda>v. up)
       (Some (colored_house\<lparr>v_normal := Some [up, up, up, up, up],
                            f_triangle_range := Some house_ranges\<rparr>)) (Some house_flat) =
     Inr (colored_house\<lparr>v_normal := Some [up, up, up, up, up],
                        f_triangle_range := Some house_ranges\<rparr>, house_flat, 3) \<and>
   update_data_graph_points (Some path_graph) (Some blank_points) = Inr path_points \<and>
   update_data_graph_points (Some path_graph) (Some path_points) = Inr path_points \<and>
   update_data_graph_lines (Some path_graph) (Some blank_lines) = Inr path_lines \<and>
   update_data_graph_lines (Some path_graph) (Some path_lines) = Inr path_lines"
proof -
  note i = marshallers_idempotent [of some_setting counting_color 0 segmented_cloud blank_points
      segmented_points 2 house_mesh house_points blank_lines house_lines
      fan_tessellator "\<lambda>f. up" "\<lambda>v. up" blank _ _ _ path_graph path_points path_lines]
  note j = marshallers_idempotent [of _ _ _ _ _ _ _ colored_house _ _ _
      fan_tessellator "\<lambda>f. up" "\<lambda>v. up" blank
      "colored_house\<lparr>v_normal := Some [up, up, up, up, up],
                     f_triangle_range := Some house_ranges\<rparr>" house_flat 3]
  from i [THEN conjunct1, rule_format, OF example_marshals(1)]
    i [THEN conjunct2, THEN conjunct1, rule_format, OF example_marshals(2)]
    i [THEN conjunct2, THEN conjunct2, THEN conjunct1, rule_format, OF example_marshals(3)]
    j [THEN conjunct2, THEN conjunct2, THEN conjunct2, THEN conjunct1, rule_format,
       OF house_per_face]
    i [THEN conjunct2, THEN conjunct2, THEN conjunct2, THEN conjunct2, THEN conjunct1,
       rule_format, OF example_marshals(4)]
    i [THEN conjunct2, THEN conjunct2, THEN conjunct2, THEN conjunct2, THEN conjunct2,
       rule_format, OF example_marshals(5)]
    example_marshals house_per_face
  show ?thesis by (intro conjI)
qed

subsection \<open>C6: stored vertex normals\<close>

text \<open>
  C6 says that a surface-mesh triangles marshal leaves a \<open>v:normal\<close> property that
  exists before the call as it is, and recomputes the normals only when there are none.
  The marshal calls \<open>update_vertex_normals\<close> before it looks at \<open>v:normal\<close> (line 130),
  so the test in the per-vertex branch (lines 184 to 187) never finds the property missing.
  On the quad with normals pointing east and a mesh that computes \<open>up\<close> for every
  vertex, the stored normals are replaced: the mesh and the normal buffer hold \<open>up\<close>
  after the call.
\<close>

theorem stored_normals_recomputed:
  "v_normal quad_with_normals = Some [east, east, east, east] \<and>
   update_data_mesh_triangles fan_tessellator (\<lambda>f. up) (\<lambda>v. up)
       (Some quad_with_normals) (Some blank) =
     Inr (quad_mesh\<lparr>v_normal := Some [up, up, up, up],
                    f_triangle_range := Some ((\<lambda>f. (0, 0))(0 := (0, 1)))\<rparr>,
          blank\<lparr>vertex_buffer := Some [(0, 0, 0), (1, 0, 0), (1, 1, 0), (0, 1, 0)],
                normal_buffer := Some [up, up, up, up],
                index_buffer := Some [0, 1, 2, 0, 2, 3]\<rparr>, 2) \<and>
   [up, up, up, up] \<noteq> [east, east, east, east]"
  by (simp add: update_data_mesh_triangles_def update_vertex_normals_def
        face_property_triangle_range_def fan_face_def fan_triangles.simps
        quad_with_normals_def quad_mesh_fields drawable_ops Let_def up_def east_def)

subsection \<open>C5: the colours of a segmented point cloud\<close>












subsection \<open>C7: null arguments and missing positions\<close>







end
